theory Spec2Isabelle
  imports Complex_Main "HOL-Library.Monad_Syntax" "HOL-Library.Word"
begin

section \<open>Geometry primitives (engine/core/MathUtil.h)\<close>

text \<open>
  The engine computes with C++ \<open>float\<close>. The embedding idealises \<open>float\<close> as the
  real numbers: every comparison and every arithmetic operation of the source is kept,
  rounding is not modelled. \<open>Rect\<close> stores its width and height as \<open>int\<close>; they are
  converted where the source adds them to a \<open>float\<close>.
  Field names of \<open>Point2D\<close> are prefixed (\<open>pt_x\<close>, \<open>pt_y\<close>) because \<open>x\<close> and \<open>y\<close>
  are wanted as variable names.
\<close>

record Point2D =
  pt_x :: real
  pt_y :: real

text \<open>\<open>Point2D::operator+(const Point2D&)\<close>\<close>

definition point_add :: "Point2D \<Rightarrow> Point2D \<Rightarrow> Point2D" where
  "point_add p q = \<lparr>pt_x = pt_x p + pt_x q, pt_y = pt_y p + pt_y q\<rparr>"

record Rect =
  topLeft :: Point2D
  width :: int
  height :: int

text \<open>The locals \<open>thisRight\<close> and \<open>thisBottom\<close> of \<open>Rect::RectIntersect\<close>.\<close>

definition rectRight :: "Rect \<Rightarrow> real" where
  "rectRight r = pt_x (topLeft r) + real_of_int (width r)"

definition rectBottom :: "Rect \<Rightarrow> real" where
  "rectBottom r = pt_y (topLeft r) + real_of_int (height r)"

text \<open>\<open>Rect::RectIntersect\<close>: entirely left, right, above or below means no intersection.\<close>

definition RectIntersect :: "Rect \<Rightarrow> Rect \<Rightarrow> bool" where
  "RectIntersect this other =
     (let otherRight = rectRight other;
          thisRight = rectRight this;
          otherBottom = rectBottom other;
          thisBottom = rectBottom this
      in if pt_x (topLeft this) \<ge> otherRight \<or> pt_x (topLeft other) \<ge> thisRight
            \<or> pt_y (topLeft this) \<ge> otherBottom \<or> pt_y (topLeft other) \<ge> thisBottom
         then False
         else True)"

section \<open>Penetration depth (engine/systems/CollisionSystem.h)\<close>

record Overlap =
  horizontal :: real
  vertical :: real

definition CalculateOverlap :: "Rect \<Rightarrow> Rect \<Rightarrow> Overlap" where
  "CalculateOverlap rect1 rect2 =
     (let left1 = pt_x (topLeft rect1);
          right1 = left1 + real_of_int (width rect1);
          top1 = pt_y (topLeft rect1);
          bottom1 = top1 + real_of_int (height rect1);
          left2 = pt_x (topLeft rect2);
          right2 = left2 + real_of_int (width rect2);
          top2 = pt_y (topLeft rect2);
          bottom2 = top2 + real_of_int (height rect2)
      in \<lparr>horizontal = min right1 right2 - max left1 left2,
          vertical = min bottom1 bottom2 - max top1 top2\<rparr>)"

section \<open>Component storage (engine/core/ComponentStorage.h)\<close>

text \<open>
  \<open>size_t\<close> is taken to be 64 bits wide. Slot ids are vector indices and are modelled as
  natural numbers; the counter \<open>mCount\<close> is incremented and decremented explicitly, so
  its wrap-around is written out.
\<close>

definition SIZE_MAX :: nat where
  "SIZE_MAX = 2 ^ 64 - 1"

definition size_t_inc :: "nat \<Rightarrow> nat" where
  "size_t_inc n = (n + 1) mod 2 ^ 64"

definition size_t_dec :: "nat \<Rightarrow> nat" where
  "size_t_dec n = (n + (2 ^ 64 - 1)) mod 2 ^ 64"

record 'a ComponentStorage =
  mStorage :: "'a list"
  mValid :: "bool list"
  mFreeList :: "nat list"
  mCount :: nat

text \<open>The default-constructed storage: three empty vectors and \<open>mCount = 0\<close>.\<close>

definition cs_empty :: "'a ComponentStorage" where
  "cs_empty = \<lparr>mStorage = [], mValid = [], mFreeList = [], mCount = 0\<rparr>"

text \<open>\<open>ComponentStorage::valid\<close>\<close>

definition cs_valid :: "'a ComponentStorage \<Rightarrow> nat \<Rightarrow> bool" where
  "cs_valid s i = (i < length (mValid s) \<and> mValid s ! i)"

text \<open>
  \<open>ComponentStorage::store\<close> (the copying and the moving overload do the same):
  reuse the most recently freed slot, else append. Returns the slot id and the new storage.
\<close>

definition cs_store :: "'a ComponentStorage \<Rightarrow> 'a \<Rightarrow> nat \<times> 'a ComponentStorage" where
  "cs_store s v =
     (if mFreeList s \<noteq> [] then
        (let i = last (mFreeList s)
         in (i, s\<lparr>mFreeList := butlast (mFreeList s),
                   mStorage := (mStorage s)[i := v],
                   mValid := (mValid s)[i := True],
                   mCount := size_t_inc (mCount s)\<rparr>))
      else
        (length (mStorage s),
         s\<lparr>mStorage := mStorage s @ [v],
           mValid := mValid s @ [True],
           mCount := size_t_inc (mCount s)\<rparr>))"

text \<open>
  \<open>ComponentStorage::remove\<close>. The failed \<open>assert(valid(id))\<close> is the result \<open>None\<close>.
  The value \<open>T {}\<close> the slot is reset to is the parameter \<open>dflt\<close>.
\<close>

definition cs_remove :: "'a \<Rightarrow> 'a ComponentStorage \<Rightarrow> nat \<Rightarrow> 'a ComponentStorage option" where
  "cs_remove dflt s i =
     (if \<not> cs_valid s i then None
      else Some (s\<lparr>mValid := (mValid s)[i := False],
                   mStorage := (mStorage s)[i := dflt],
                   mFreeList := mFreeList s @ [i],
                   mCount := size_t_dec (mCount s)\<rparr>))"

text \<open>\<open>ComponentStorage::size\<close>\<close>

definition cs_size :: "'a ComponentStorage \<Rightarrow> nat" where
  "cs_size s = mCount s"

text \<open>
  A sequence of \<open>store\<close> and \<open>remove\<close> calls on one storage, run in order; the run stops
  with \<open>None\<close> at a \<open>remove\<close> whose slot is not valid at that moment.
\<close>

datatype 'a storage_op = Store 'a | Remove nat

fun run_ops :: "'a \<Rightarrow> 'a ComponentStorage \<Rightarrow> 'a storage_op list \<Rightarrow> 'a ComponentStorage option" where
  "run_ops dflt s [] = Some s"
| "run_ops dflt s (Store v # ops) = run_ops dflt (snd (cs_store s v)) ops"
| "run_ops dflt s (Remove i # ops) =
     (case cs_remove dflt s i of None \<Rightarrow> None | Some s' \<Rightarrow> run_ops dflt s' ops)"

fun is_store :: "'a storage_op \<Rightarrow> bool" where
  "is_store (Store v) = True"
| "is_store (Remove i) = False"

definition num_stores :: "'a storage_op list \<Rightarrow> nat" where
  "num_stores ops = length (filter is_store ops)"

definition num_removes :: "'a storage_op list \<Rightarrow> nat" where
  "num_removes ops = length (filter (\<lambda>p. \<not> is_store p) ops)"

text \<open>The number of slots whose validity marker is true.\<close>

definition num_valid :: "'a ComponentStorage \<Rightarrow> nat" where
  "num_valid s = length (filter (\<lambda>b. b) (mValid s))"

text \<open>
  The representation invariant of a storage: both vectors have one entry per slot, the
  free list holds each freed slot once, every slot on it is in range and marked invalid,
  and the counter equals the number of slots marked valid.
\<close>

definition cs_inv :: "'a ComponentStorage \<Rightarrow> bool" where
  "cs_inv s \<longleftrightarrow>
     length (mStorage s) = length (mValid s)
     \<and> distinct (mFreeList s)
     \<and> (\<forall>i \<in> set (mFreeList s). i < length (mValid s) \<and> \<not> mValid s ! i)
     \<and> mCount s = num_valid s"

section \<open>Components (engine/components)\<close>

text \<open>
  Each component is a record of the fields of the C++ struct; \<open>X_default\<close> is the value
  \<open>X {}\<close> that \<open>ComponentStorage::remove\<close> resets a slot to. Fields whose name occurs
  in two structs carry a prefix. \<open>size_t\<close> ids are natural numbers, \<open>float\<close> is real,
  the \<open>int\<close> score is a 32-bit word.
\<close>

record LocationComponent =
  position :: Point2D

definition LocationComponent_default :: LocationComponent where
  "LocationComponent_default = \<lparr>position = \<lparr>pt_x = 0, pt_y = 0\<rparr>\<rparr>"

record MovementComponent =
  velocity :: Point2D
  maxSpeed :: real

definition MovementComponent_default :: MovementComponent where
  "MovementComponent_default = \<lparr>velocity = \<lparr>pt_x = 0, pt_y = 0\<rparr>, maxSpeed = 300\<rparr>"

record AccelerationComponent =
  acceleration :: Point2D

definition AccelerationComponent_default :: AccelerationComponent where
  "AccelerationComponent_default = \<lparr>acceleration = \<lparr>pt_x = 0, pt_y = 0\<rparr>\<rparr>"

text \<open>\<open>Rect()\<close>: the empty rectangle at the origin.\<close>

definition Rect_default :: Rect where
  "Rect_default = \<lparr>topLeft = \<lparr>pt_x = 0, pt_y = 0\<rparr>, width = 0, height = 0\<rparr>"

record CollisionComponent =
  collidedTop :: bool
  collidedBottom :: bool
  collidedLeft :: bool
  collidedRight :: bool
  wasStandingLast :: bool
  wasTouchingWallLast :: bool
  boundingBoxOffset :: Point2D
  currentBoundingBox :: Rect
  previousBoundingBox :: Rect
  isStatic :: bool
  boundingBoxInitialized :: bool

definition CollisionComponent_default :: CollisionComponent where
  "CollisionComponent_default =
     \<lparr>collidedTop = False, collidedBottom = False, collidedLeft = False,
      collidedRight = False, wasStandingLast = True, wasTouchingWallLast = False,
      boundingBoxOffset = \<lparr>pt_x = 0, pt_y = 0\<rparr>,
      currentBoundingBox = Rect_default, previousBoundingBox = Rect_default,
      isStatic = True, boundingBoxInitialized = False\<rparr>"

text \<open>The constructor \<open>CollisionComponent(const Rect&, bool staticEntity)\<close>.\<close>

definition CollisionComponent_of :: "Rect \<Rightarrow> bool \<Rightarrow> CollisionComponent" where
  "CollisionComponent_of boundingBox staticEntity =
     \<lparr>collidedTop = False, collidedBottom = False, collidedLeft = False,
      collidedRight = False, wasStandingLast = True, wasTouchingWallLast = False,
      boundingBoxOffset = topLeft boundingBox,
      currentBoundingBox = boundingBox, previousBoundingBox = boundingBox,
      isStatic = staticEntity, boundingBoxInitialized = False\<rparr>"

text \<open>\<open>CollisionComponent::clearCollisions\<close>\<close>

definition clearCollisions :: "CollisionComponent \<Rightarrow> CollisionComponent" where
  "clearCollisions c =
     c\<lparr>collidedTop := False, collidedBottom := False,
       collidedLeft := False, collidedRight := False\<rparr>"

record SpriteComponent =
  spriteID :: nat
  spriteRect :: Rect
  worldSpace :: bool
  isAlive :: bool

definition SpriteComponent_default :: SpriteComponent where
  "SpriteComponent_default =
     \<lparr>spriteID = 0, spriteRect = Rect_default, worldSpace = True, isAlive = True\<rparr>"

record SpawnComponent =
  spawn_entityID :: nat
  entityType :: string
  spawn_spriteID :: nat
  timeToNextSpawn :: real
  spawnInterval :: real
  spawnCount :: int
  maxSpawns :: int

definition SpawnComponent_default :: SpawnComponent where
  "SpawnComponent_default =
     \<lparr>spawn_entityID = 0, entityType = [], spawn_spriteID = 0, timeToNextSpawn = 0,
      spawnInterval = 1, spawnCount = 0, maxSpawns = - 1\<rparr>"

record CameraComponent =
  camera_position :: Point2D
  worldUnitsPerPixel :: real

definition CameraComponent_default :: CameraComponent where
  "CameraComponent_default =
     \<lparr>camera_position = \<lparr>pt_x = 0, pt_y = 0\<rparr>, worldUnitsPerPixel = 0\<rparr>"

record CameraFollower =
  entityToTrack :: nat
  followX :: bool
  followY :: bool

definition CameraFollower_default :: CameraFollower where
  "CameraFollower_default = \<lparr>entityToTrack = 0, followX = True, followY = True\<rparr>"

text \<open>The bitset \<open>keydown\<close> is the set of the scancodes whose bit is set.\<close>

record InputComponent =
  keydown :: "nat set"

definition InputComponent_default :: InputComponent where
  "InputComponent_default = \<lparr>keydown = {}\<rparr>"

record CameraShake =
  isShaking :: bool
  shake_horizontal :: bool
  magnitudeX :: real
  magnitudeY :: real
  frequencyX :: real
  frequencyY :: real
  elapsedTime :: real

definition CameraShake_default :: CameraShake where
  "CameraShake_default =
     \<lparr>isShaking = False, shake_horizontal = False, magnitudeX = 0, magnitudeY = 0,
      frequencyX = 15 / 10, frequencyY = 21 / 10, elapsedTime = 0\<rparr>"

record ScoreComponent =
  score :: "32 word"
  displayEntities :: "nat list"
  digitSprites :: "nat list"

definition ScoreComponent_default :: ScoreComponent where
  "ScoreComponent_default =
     \<lparr>score = 0, displayEntities = [], digitSprites = replicate 10 0\<rparr>"

record TimeComponent =
  totalDuration :: real
  timeRemaining :: real
  isRunning :: bool
  restart :: bool

definition TimeComponent_default :: TimeComponent where
  "TimeComponent_default =
     \<lparr>totalDuration = 0, timeRemaining = 0, isRunning = False, restart = False\<rparr>"

section \<open>Entity manager (engine/managers/EntityManager.h)\<close>

text \<open>
  The manager is the instance of the class template that \<open>main.cpp\<close> builds: its pack of
  component types is Location, Movement, Acceleration, Collision, Sprite, Spawn, Camera,
  CameraFollower, Input, CameraShake, Score, Time, in this order. The tuple
  \<open>mRegistries\<close> is a record with one typed storage per component type.
\<close>

record Entity =
  ent_id :: nat
  ent_name :: string

record Registries =
  reg_Location :: "LocationComponent ComponentStorage"
  reg_Movement :: "MovementComponent ComponentStorage"
  reg_Acceleration :: "AccelerationComponent ComponentStorage"
  reg_Collision :: "CollisionComponent ComponentStorage"
  reg_Sprite :: "SpriteComponent ComponentStorage"
  reg_Spawn :: "SpawnComponent ComponentStorage"
  reg_Camera :: "CameraComponent ComponentStorage"
  reg_CameraFollower :: "CameraFollower ComponentStorage"
  reg_Input :: "InputComponent ComponentStorage"
  reg_CameraShake :: "CameraShake ComponentStorage"
  reg_Score :: "ScoreComponent ComponentStorage"
  reg_Time :: "TimeComponent ComponentStorage"

text \<open>
  The private vectors \<open>mFreeList\<close> and \<open>mValid\<close> of the manager are the fields
  \<open>mFreeIds\<close> and \<open>mValidIds\<close> (the storage has fields of the same names).
\<close>

record EntityManager =
  mEntities :: "Entity list"
  mRegistries :: Registries
  mEntityToComponentIdx :: "nat list list"
  mFreeIds :: "nat list"
  mValidIds :: "bool list"

definition INVALID_COMPONENT_INDEX :: nat where
  "INVALID_COMPONENT_INDEX = SIZE_MAX"

definition NUM_COMPONENTS :: nat where
  "NUM_COMPONENTS = 12"

text \<open>The default-constructed manager.\<close>

definition em_empty :: EntityManager where
  "em_empty =
     \<lparr>mEntities = [],
      mRegistries = \<lparr>reg_Location = cs_empty, reg_Movement = cs_empty,
        reg_Acceleration = cs_empty, reg_Collision = cs_empty, reg_Sprite = cs_empty,
        reg_Spawn = cs_empty, reg_Camera = cs_empty, reg_CameraFollower = cs_empty,
        reg_Input = cs_empty, reg_CameraShake = cs_empty, reg_Score = cs_empty,
        reg_Time = cs_empty\<rparr>,
      mEntityToComponentIdx = [], mFreeIds = [], mValidIds = []\<rparr>"

text \<open>
  A template argument \<open>T\<close> of \<open>AddComponent<T>\<close>, \<open>HasComponent<T>\<close> and
  \<open>GetComponent<T>\<close> stands for \<open>COMP_TYPE_ID = Pack<Components...>::index<T>\<close> and
  for the storage \<open>std::get<COMP_TYPE_ID>(mRegistries)\<close>; it is modelled as the record of
  these two (the storage as a getter and a setter).
\<close>

record 'c comp_type =
  type_id :: nat
  get_reg :: "Registries \<Rightarrow> 'c ComponentStorage"
  set_reg :: "'c ComponentStorage \<Rightarrow> Registries \<Rightarrow> Registries"

definition T_Location :: "LocationComponent comp_type" where
  "T_Location = \<lparr>type_id = 0, get_reg = reg_Location,
                  set_reg = (\<lambda>s r. r\<lparr>reg_Location := s\<rparr>)\<rparr>"

definition T_Movement :: "MovementComponent comp_type" where
  "T_Movement = \<lparr>type_id = 1, get_reg = reg_Movement,
                  set_reg = (\<lambda>s r. r\<lparr>reg_Movement := s\<rparr>)\<rparr>"

definition T_Collision :: "CollisionComponent comp_type" where
  "T_Collision = \<lparr>type_id = 3, get_reg = reg_Collision,
                   set_reg = (\<lambda>s r. r\<lparr>reg_Collision := s\<rparr>)\<rparr>"

definition T_Sprite :: "SpriteComponent comp_type" where
  "T_Sprite = \<lparr>type_id = 4, get_reg = reg_Sprite,
                set_reg = (\<lambda>s r. r\<lparr>reg_Sprite := s\<rparr>)\<rparr>"

definition T_Input :: "InputComponent comp_type" where
  "T_Input = \<lparr>type_id = 8, get_reg = reg_Input,
               set_reg = (\<lambda>s r. r\<lparr>reg_Input := s\<rparr>)\<rparr>"

definition T_CameraShake :: "CameraShake comp_type" where
  "T_CameraShake = \<lparr>type_id = 9, get_reg = reg_CameraShake,
                     set_reg = (\<lambda>s r. r\<lparr>reg_CameraShake := s\<rparr>)\<rparr>"

definition T_Score :: "ScoreComponent comp_type" where
  "T_Score = \<lparr>type_id = 10, get_reg = reg_Score,
               set_reg = (\<lambda>s r. r\<lparr>reg_Score := s\<rparr>)\<rparr>"




text \<open>\<open>EntityManager::CreateEntity\<close>: returns the id and the new manager.\<close>

definition CreateEntity :: "EntityManager \<Rightarrow> string \<Rightarrow> nat \<times> EntityManager" where
  "CreateEntity em name =
     (if mFreeIds em \<noteq> [] then
        (let ret = last (mFreeIds em)
         in (ret, em\<lparr>mFreeIds := butlast (mFreeIds em),
                     mValidIds := (mValidIds em)[ret := True],
                     mEntities := (mEntities em)
                        [ret := (mEntities em ! ret)\<lparr>ent_id := ret, ent_name := name\<rparr>]\<rparr>))
      else
        (let ret = length (mEntityToComponentIdx em)
         in (ret, em\<lparr>mValidIds := mValidIds em @ [True],
                     mEntityToComponentIdx := mEntityToComponentIdx em
                        @ [replicate NUM_COMPONENTS INVALID_COMPONENT_INDEX],
                     mEntities := mEntities em @ [\<lparr>ent_id = ret, ent_name = name\<rparr>]\<rparr>)))"

text \<open>\<open>EntityManager::ValidEntity\<close>\<close>

definition ValidEntity :: "EntityManager \<Rightarrow> nat \<Rightarrow> bool" where
  "ValidEntity em i = (i < length (mValidIds em) \<and> mValidIds em ! i)"

text \<open>
  In the functions below a failed \<open>assert\<close> is the result \<open>None\<close>: the model is the
  build with assertions enabled.
\<close>

definition assert_that :: "bool \<Rightarrow> unit option" where
  "assert_that b = (if b then Some () else None)"

text \<open>\<open>EntityManager::GetEntityName\<close>\<close>

definition GetEntityName :: "EntityManager \<Rightarrow> nat \<Rightarrow> string option" where
  "GetEntityName em i =
     (if \<not> ValidEntity em i then None else Some (ent_name (mEntities em ! i)))"

text \<open>
  \<open>EntityManager::RemoveComponentByIndex\<close>: the fold expression removes slot \<open>compID\<close>
  from the storage whose index is \<open>compTypeID\<close>, and does nothing when no index matches.
\<close>

definition registries_remove :: "Registries \<Rightarrow> nat \<Rightarrow> nat \<Rightarrow> Registries option" where
  "registries_remove r compTypeID compID =
    (if compTypeID = 0 then map_option (\<lambda>s. r\<lparr>reg_Location := s\<rparr>)
        (cs_remove LocationComponent_default (reg_Location r) compID)
     else if compTypeID = 1 then map_option (\<lambda>s. r\<lparr>reg_Movement := s\<rparr>)
        (cs_remove MovementComponent_default (reg_Movement r) compID)
     else if compTypeID = 2 then map_option (\<lambda>s. r\<lparr>reg_Acceleration := s\<rparr>)
        (cs_remove AccelerationComponent_default (reg_Acceleration r) compID)
     else if compTypeID = 3 then map_option (\<lambda>s. r\<lparr>reg_Collision := s\<rparr>)
        (cs_remove CollisionComponent_default (reg_Collision r) compID)
     else if compTypeID = 4 then map_option (\<lambda>s. r\<lparr>reg_Sprite := s\<rparr>)
        (cs_remove SpriteComponent_default (reg_Sprite r) compID)
     else if compTypeID = 5 then map_option (\<lambda>s. r\<lparr>reg_Spawn := s\<rparr>)
        (cs_remove SpawnComponent_default (reg_Spawn r) compID)
     else if compTypeID = 6 then map_option (\<lambda>s. r\<lparr>reg_Camera := s\<rparr>)
        (cs_remove CameraComponent_default (reg_Camera r) compID)
     else if compTypeID = 7 then map_option (\<lambda>s. r\<lparr>reg_CameraFollower := s\<rparr>)
        (cs_remove CameraFollower_default (reg_CameraFollower r) compID)
     else if compTypeID = 8 then map_option (\<lambda>s. r\<lparr>reg_Input := s\<rparr>)
        (cs_remove InputComponent_default (reg_Input r) compID)
     else if compTypeID = 9 then map_option (\<lambda>s. r\<lparr>reg_CameraShake := s\<rparr>)
        (cs_remove CameraShake_default (reg_CameraShake r) compID)
     else if compTypeID = 10 then map_option (\<lambda>s. r\<lparr>reg_Score := s\<rparr>)
        (cs_remove ScoreComponent_default (reg_Score r) compID)
     else if compTypeID = 11 then map_option (\<lambda>s. r\<lparr>reg_Time := s\<rparr>)
        (cs_remove TimeComponent_default (reg_Time r) compID)
     else Some r)"

definition RemoveComponentByIndex ::
  "EntityManager \<Rightarrow> nat \<Rightarrow> nat \<Rightarrow> EntityManager option" where
  "RemoveComponentByIndex em compTypeID compID =
     map_option (\<lambda>r. em\<lparr>mRegistries := r\<rparr>)
       (registries_remove (mRegistries em) compTypeID compID)"

text \<open>
  \<open>EntityManager::RemoveEntity\<close>. The loop over the component types is a recursion over
  the list of the type indices still to visit.
\<close>

fun RemoveEntity_loop :: "nat list \<Rightarrow> nat \<Rightarrow> EntityManager \<Rightarrow> EntityManager option" where
  "RemoveEntity_loop [] entity em = Some em"
| "RemoveEntity_loop (compTypeID # rest) entity em =
     (let compID = mEntityToComponentIdx em ! entity ! compTypeID
      in if compID \<noteq> INVALID_COMPONENT_INDEX then
           (case RemoveComponentByIndex em compTypeID compID of
              None \<Rightarrow> None
            | Some em' \<Rightarrow>
                RemoveEntity_loop rest entity
                  (em'\<lparr>mEntityToComponentIdx := (mEntityToComponentIdx em')
                         [entity := (mEntityToComponentIdx em' ! entity)
                                      [compTypeID := INVALID_COMPONENT_INDEX]]\<rparr>))
         else RemoveEntity_loop rest entity em)"

definition RemoveEntity :: "EntityManager \<Rightarrow> nat \<Rightarrow> EntityManager option" where
  "RemoveEntity em entity =
     (if \<not> ValidEntity em entity then Some em
      else
        (case RemoveEntity_loop [0..<NUM_COMPONENTS] entity em of
           None \<Rightarrow> None
         | Some em' \<Rightarrow>
             Some (em'\<lparr>mEntities := (mEntities em')
                          [entity := (mEntities em' ! entity)\<lparr>ent_name := [], ent_id := 0\<rparr>],
                       mValidIds := (mValidIds em')[entity := False],
                       mFreeIds := mFreeIds em' @ [entity]\<rparr>)))"

text \<open>\<open>EntityManager::AddComponent<T>\<close>\<close>

definition AddComponent ::
  "'c comp_type \<Rightarrow> EntityManager \<Rightarrow> nat \<Rightarrow> 'c \<Rightarrow> EntityManager option" where
  "AddComponent T em entity component =
     (if \<not> ValidEntity em entity then None
      else
        (let compID = mEntityToComponentIdx em ! entity ! type_id T
         in if compID \<noteq> INVALID_COMPONENT_INDEX then None
            else
              (let (newCompID, registry) = cs_store (get_reg T (mRegistries em)) component
               in Some (em\<lparr>mRegistries := set_reg T registry (mRegistries em),
                           mEntityToComponentIdx := (mEntityToComponentIdx em)
                             [entity := (mEntityToComponentIdx em ! entity)
                                          [type_id T := newCompID]]\<rparr>))))"

text \<open>\<open>EntityManager::HasComponent<T>\<close>\<close>

definition HasComponent :: "'c comp_type \<Rightarrow> EntityManager \<Rightarrow> nat \<Rightarrow> bool option" where
  "HasComponent T em entity =
     (if \<not> ValidEntity em entity then None
      else Some (mEntityToComponentIdx em ! entity ! type_id T \<noteq> INVALID_COMPONENT_INDEX))"

text \<open>
  \<open>EntityManager::GetComponent<T>\<close> returns a reference into the storage of \<open>T\<close>. The
  reference is modelled as the slot id; \<open>deref\<close> reads through it and \<open>modify\<close> writes
  through it, so that two references to one slot alias in the model as in the program.
\<close>

definition GetComponent :: "'c comp_type \<Rightarrow> EntityManager \<Rightarrow> nat \<Rightarrow> nat option" where
  "GetComponent T em entity =
     (if \<not> ValidEntity em entity then None
      else
        (let compID = mEntityToComponentIdx em ! entity ! type_id T
         in if \<not> cs_valid (get_reg T (mRegistries em)) compID then None
            else Some compID))"

definition deref :: "'c comp_type \<Rightarrow> EntityManager \<Rightarrow> nat \<Rightarrow> 'c" where
  "deref T em slot = mStorage (get_reg T (mRegistries em)) ! slot"

definition modify :: "'c comp_type \<Rightarrow> nat \<Rightarrow> ('c \<Rightarrow> 'c) \<Rightarrow> EntityManager \<Rightarrow> EntityManager" where
  "modify T slot f em =
     em\<lparr>mRegistries :=
          set_reg T
            ((get_reg T (mRegistries em))
               \<lparr>mStorage := (mStorage (get_reg T (mRegistries em)))
                  [slot := f (mStorage (get_reg T (mRegistries em)) ! slot)]\<rparr>)
            (mRegistries em)\<rparr>"

text \<open>
  The representation invariant of the manager that the claims about entity ids use: the
  three per-entity vectors have the same length, every row of the index table has one
  entry per component type, the free list holds each freed id once, every id on it is in
  range and marked invalid, and an entity marked invalid holds no component.
\<close>

definition em_inv :: "EntityManager \<Rightarrow> bool" where
  "em_inv em \<longleftrightarrow>
     length (mValidIds em) = length (mEntityToComponentIdx em)
     \<and> length (mEntities em) = length (mEntityToComponentIdx em)
     \<and> (\<forall>row \<in> set (mEntityToComponentIdx em). length row = NUM_COMPONENTS)
     \<and> distinct (mFreeIds em)
     \<and> (\<forall>e \<in> set (mFreeIds em). e < length (mValidIds em) \<and> \<not> mValidIds em ! e)
     \<and> (\<forall>e < length (mEntityToComponentIdx em). \<not> mValidIds em ! e \<longrightarrow>
           mEntityToComponentIdx em ! e = replicate NUM_COMPONENTS INVALID_COMPONENT_INDEX)"

text \<open>
  The scenario of entity recycling: create A, destroy A, create B. The result holds A's
  id, the manager after the destroy, B's id and the manager after the second create.
\<close>

definition create_destroy_create ::
  "EntityManager \<Rightarrow> string \<Rightarrow> string \<Rightarrow> (nat \<times> EntityManager \<times> nat \<times> EntityManager) option" where
  "create_destroy_create em nameA nameB =
     (let (a, em1) = CreateEntity em nameA
      in case RemoveEntity em1 a of
           None \<Rightarrow> None
         | Some em2 \<Rightarrow> (let (b, em3) = CreateEntity em2 nameB in Some (a, em2, b, em3)))"

text \<open>Whether A's id passes the validity check after the whole scenario.\<close>

definition stale_id_valid :: "EntityManager \<Rightarrow> string \<Rightarrow> string \<Rightarrow> bool option" where
  "stale_id_valid em nameA nameB =
     map_option (\<lambda>(a, em2, b, em3). ValidEntity em3 a) (create_destroy_create em nameA nameB)"

section \<open>Sound manager (engine/managers/SoundManager.cpp)\<close>

text \<open>
  Of the sound manager the model keeps the names of the registered sounds and the list
  of the sounds played so far. \<open>PlaySound\<close> asserts that the sound is registered.
\<close>

record SoundManager =
  mSounds :: "string list"
  played :: "string list"

definition PlaySound :: "SoundManager \<Rightarrow> string \<Rightarrow> SoundManager option" where
  "PlaySound sm soundName =
     (if soundName \<notin> set (mSounds sm) then None
      else Some (sm\<lparr>played := played sm @ [soundName]\<rparr>))"

section \<open>Collision resolution (engine/systems/CollisionSystem.h)\<close>

text \<open>The assignments to single coordinates that \<open>ResolveCollision\<close> makes.\<close>

definition add_pos_x :: "real \<Rightarrow> LocationComponent \<Rightarrow> LocationComponent" where
  "add_pos_x d l = l\<lparr>position := (position l)\<lparr>pt_x := pt_x (position l) + d\<rparr>\<rparr>"

definition add_pos_y :: "real \<Rightarrow> LocationComponent \<Rightarrow> LocationComponent" where
  "add_pos_y d l = l\<lparr>position := (position l)\<lparr>pt_y := pt_y (position l) + d\<rparr>\<rparr>"

definition add_box_x :: "real \<Rightarrow> CollisionComponent \<Rightarrow> CollisionComponent" where
  "add_box_x d c =
     c\<lparr>currentBoundingBox := (currentBoundingBox c)
         \<lparr>topLeft := (topLeft (currentBoundingBox c))
            \<lparr>pt_x := pt_x (topLeft (currentBoundingBox c)) + d\<rparr>\<rparr>\<rparr>"

definition add_box_y :: "real \<Rightarrow> CollisionComponent \<Rightarrow> CollisionComponent" where
  "add_box_y d c =
     c\<lparr>currentBoundingBox := (currentBoundingBox c)
         \<lparr>topLeft := (topLeft (currentBoundingBox c))
            \<lparr>pt_y := pt_y (topLeft (currentBoundingBox c)) + d\<rparr>\<rparr>\<rparr>"

definition set_vel_x :: "real \<Rightarrow> MovementComponent \<Rightarrow> MovementComponent" where
  "set_vel_x v m = m\<lparr>velocity := (velocity m)\<lparr>pt_x := v\<rparr>\<rparr>"

definition set_vel_y :: "real \<Rightarrow> MovementComponent \<Rightarrow> MovementComponent" where
  "set_vel_y v m = m\<lparr>velocity := (velocity m)\<lparr>pt_y := v\<rparr>\<rparr>"

definition box_x :: "EntityManager \<Rightarrow> nat \<Rightarrow> real" where
  "box_x em c = pt_x (topLeft (currentBoundingBox (deref T_Collision em c)))"

definition box_y :: "EntityManager \<Rightarrow> nat \<Rightarrow> real" where
  "box_y em c = pt_y (topLeft (currentBoundingBox (deref T_Collision em c)))"

definition vel_x :: "EntityManager \<Rightarrow> nat \<Rightarrow> real" where
  "vel_x em m = pt_x (velocity (deref T_Movement em m))"

definition vel_y :: "EntityManager \<Rightarrow> nat \<Rightarrow> real" where
  "vel_y em m = pt_y (velocity (deref T_Movement em m))"

definition bounceDamping :: real where
  "bounceDamping = 7 / 10"

text \<open>
  The short-circuit conjunction of two calls that may fail: the second is evaluated
  only when the first returned true.
\<close>

definition and_also :: "bool option \<Rightarrow> bool option \<Rightarrow> bool option" where
  "and_also a b = (case a of None \<Rightarrow> None | Some x \<Rightarrow> if x then b else Some False)"


text \<open>
  The dynamic-dynamic branch of \<open>ResolveCollision\<close> (lines 96 to 194), horizontal part.
  \<open>c1\<close> and \<open>c2\<close> are the references \<open>col1\<close> and \<open>col2\<close>, \<open>l1\<close> and \<open>l2\<close> the
  references \<open>location1\<close> and \<open>location2\<close>.
\<close>

definition ResolveDynamicHorizontal ::
  "nat \<Rightarrow> nat \<Rightarrow> nat \<Rightarrow> nat \<Rightarrow> nat \<Rightarrow> nat \<Rightarrow> Overlap \<Rightarrow> EntityManager \<Rightarrow> nat
     \<Rightarrow> EntityManager option" where
  "ResolveDynamicHorizontal entity1 entity2 c1 c2 l1 l2 overlap em thePlayer =
     (let entity1IsPlayer = (entity1 = thePlayer);
          entity2IsPlayer = (entity2 = thePlayer);
          halfOverlap = horizontal overlap / 2;
          entity1IsLeft = (box_x em c1 < box_x em c2);
          em = (if entity1IsLeft then
                  (let em = modify T_Location l1 (add_pos_x (- halfOverlap)) em;
                       em = modify T_Collision c1 (add_box_x (- halfOverlap)) em;
                       em = modify T_Location l2 (add_pos_x halfOverlap) em;
                       em = modify T_Collision c2 (add_box_x halfOverlap) em;
                       em = modify T_Collision c1 (\<lambda>c. c\<lparr>collidedRight := True\<rparr>) em
                   in modify T_Collision c2 (\<lambda>c. c\<lparr>collidedLeft := True\<rparr>) em)
                else
                  (let em = modify T_Location l1 (add_pos_x halfOverlap) em;
                       em = modify T_Collision c1 (add_box_x halfOverlap) em;
                       em = modify T_Location l2 (add_pos_x (- halfOverlap)) em;
                       em = modify T_Collision c2 (add_box_x (- halfOverlap)) em;
                       em = modify T_Collision c1 (\<lambda>c. c\<lparr>collidedLeft := True\<rparr>) em
                   in modify T_Collision c2 (\<lambda>c. c\<lparr>collidedRight := True\<rparr>) em))
      in do {
        both \<leftarrow> and_also (HasComponent T_Movement em entity1)
                          (HasComponent T_Movement em entity2);
        if both then do {
          m1 \<leftarrow> GetComponent T_Movement em entity1;
          m2 \<leftarrow> GetComponent T_Movement em entity2;
          if \<not> entity1IsPlayer \<and> \<not> entity2IsPlayer then
            (let temp = vel_x em m1;
                 em = modify T_Movement m1 (set_vel_x (vel_x em m2 * bounceDamping)) em
             in Some (modify T_Movement m2 (set_vel_x (temp * bounceDamping)) em))
          else if \<not> entity1IsPlayer \<and> entity2IsPlayer then
            Some (modify T_Movement m1 (set_vel_x (- vel_x em m1 * bounceDamping)) em)
          else if entity1IsPlayer \<and> \<not> entity2IsPlayer then
            Some (modify T_Movement m2 (set_vel_x (- vel_x em m2 * bounceDamping)) em)
          else Some em
        } else Some em
      })"

text \<open>
  The vertical part of the dynamic-dynamic branch. Here the source declares
  \<open>entity1IsPlayer\<close> and \<open>entity2IsPlayer\<close> anew, from \<open>HasComponent<InputComponent>\<close>,
  and changes velocities only when both are false.
\<close>

definition ResolveDynamicVertical ::
  "nat \<Rightarrow> nat \<Rightarrow> nat \<Rightarrow> nat \<Rightarrow> nat \<Rightarrow> nat \<Rightarrow> Overlap \<Rightarrow> EntityManager
     \<Rightarrow> EntityManager option" where
  "ResolveDynamicVertical entity1 entity2 c1 c2 l1 l2 overlap em =
     (let halfOverlap = vertical overlap / 2;
          entity1IsAbove = (box_y em c1 < box_y em c2);
          em = (if entity1IsAbove then
                  (let em = modify T_Location l1 (add_pos_y (- halfOverlap)) em;
                       em = modify T_Collision c1 (add_box_y (- halfOverlap)) em;
                       em = modify T_Location l2 (add_pos_y halfOverlap) em;
                       em = modify T_Collision c2 (add_box_y halfOverlap) em;
                       em = modify T_Collision c1 (\<lambda>c. c\<lparr>collidedBottom := True\<rparr>) em
                   in modify T_Collision c2 (\<lambda>c. c\<lparr>collidedTop := True\<rparr>) em)
                else
                  (let em = modify T_Location l1 (add_pos_y halfOverlap) em;
                       em = modify T_Collision c1 (add_box_y halfOverlap) em;
                       em = modify T_Location l2 (add_pos_y (- halfOverlap)) em;
                       em = modify T_Collision c2 (add_box_y (- halfOverlap)) em;
                       em = modify T_Collision c1 (\<lambda>c. c\<lparr>collidedTop := True\<rparr>) em
                   in modify T_Collision c2 (\<lambda>c. c\<lparr>collidedBottom := True\<rparr>) em))
      in do {
        entity1IsPlayer \<leftarrow> HasComponent T_Input em entity1;
        entity2IsPlayer \<leftarrow> HasComponent T_Input em entity2;
        both \<leftarrow> and_also (HasComponent T_Movement em entity1)
                          (HasComponent T_Movement em entity2);
        if both then do {
          m1 \<leftarrow> GetComponent T_Movement em entity1;
          m2 \<leftarrow> GetComponent T_Movement em entity2;
          if \<not> entity1IsPlayer \<and> \<not> entity2IsPlayer then
            (let temp = vel_y em m1;
                 em = modify T_Movement m1 (set_vel_y (vel_y em m2 * bounceDamping)) em;
                 em = modify T_Movement m2 (set_vel_y (temp * bounceDamping)) em
             in if \<bar>vel_y em m1\<bar> < 10 \<and> \<bar>vel_y em m2\<bar> < 10 then
                  (let em = modify T_Movement m1 (set_vel_x 0) em
                   in Some (modify T_Movement m2 (set_vel_x 0) em))
                else Some em)
          else Some em
        } else Some em
      })"

text \<open>The static-dynamic branch, horizontal part (lines 197 to 255).\<close>

definition ResolveStaticHorizontal ::
  "nat \<Rightarrow> nat \<Rightarrow> nat \<Rightarrow> nat \<Rightarrow> Overlap \<Rightarrow> EntityManager \<Rightarrow> nat \<Rightarrow> nat
     \<Rightarrow> EntityManager option" where
  "ResolveStaticHorizontal entity1 entity2 c1 c2 overlap em theCamera thePlayer =
     (let col1Dynamic = (\<not> isStatic (deref T_Collision em c1));
          dynamicEntity = (if col1Dynamic then entity1 else entity2);
          dynamicCol = (if col1Dynamic then c1 else c2);
          staticCol = (if col1Dynamic then c2 else c1);
          dynamicIsRight = (box_x em dynamicCol > box_x em staticCol);
          em = (if dynamicIsRight then
                  (let em = modify T_Collision dynamicCol (\<lambda>c. c\<lparr>collidedLeft := True\<rparr>) em
                   in modify T_Collision staticCol (\<lambda>c. c\<lparr>collidedRight := True\<rparr>) em)
                else
                  (let em = modify T_Collision dynamicCol (\<lambda>c. c\<lparr>collidedRight := True\<rparr>) em
                   in modify T_Collision staticCol (\<lambda>c. c\<lparr>collidedLeft := True\<rparr>) em))
      in do {
        hasLocation \<leftarrow> HasComponent T_Location em dynamicEntity;
        if hasLocation then do {
          location \<leftarrow> GetComponent T_Location em dynamicEntity;
          let separation = (if dynamicIsRight then horizontal overlap else - horizontal overlap);
          let em = modify T_Location location (add_pos_x separation) em;
          let em = modify T_Collision dynamicCol (add_box_x separation) em;
          hasMovement \<leftarrow> HasComponent T_Movement em dynamicEntity;
          if hasMovement then do {
            movement \<leftarrow> GetComponent T_Movement em dynamicEntity;
            if dynamicEntity \<noteq> thePlayer then
              (if (dynamicIsRight \<and> vel_x em movement < 0)
                  \<or> (\<not> dynamicIsRight \<and> vel_x em movement > 0)
               then Some (modify T_Movement movement
                            (set_vel_x (- vel_x em movement * bounceDamping)) em)
               else Some em)
            else do {
              let em = modify T_Movement movement (set_vel_x 0) em;
              let em = (if vel_y em movement > 150
                        then modify T_Movement movement (set_vel_y 150) em else em);
              if \<not> wasTouchingWallLast (deref T_Collision em dynamicCol) then do {
                shake \<leftarrow> GetComponent T_CameraShake em theCamera;
                let em = modify T_CameraShake shake (\<lambda>s. s\<lparr>isShaking := True\<rparr>) em;
                Some (modify T_CameraShake shake (\<lambda>s. s\<lparr>shake_horizontal := True\<rparr>) em)
              } else Some em
            }
          } else Some em
        } else Some em
      })"

text \<open>The static-dynamic branch, vertical part (lines 257 to 319).\<close>

definition ResolveStaticVertical ::
  "nat \<Rightarrow> nat \<Rightarrow> nat \<Rightarrow> nat \<Rightarrow> Overlap \<Rightarrow> EntityManager \<Rightarrow> nat \<Rightarrow> nat
     \<Rightarrow> EntityManager option" where
  "ResolveStaticVertical entity1 entity2 c1 c2 overlap em theCamera thePlayer =
     (let col1Dynamic = (\<not> isStatic (deref T_Collision em c1));
          dynamicEntity = (if col1Dynamic then entity1 else entity2);
          dynamicCol = (if col1Dynamic then c1 else c2);
          staticCol = (if col1Dynamic then c2 else c1);
          dynamicIsBelow = (box_y em dynamicCol > box_y em staticCol);
          em = (if dynamicIsBelow then
                  (let em = modify T_Collision dynamicCol (\<lambda>c. c\<lparr>collidedTop := True\<rparr>) em
                   in modify T_Collision staticCol (\<lambda>c. c\<lparr>collidedBottom := True\<rparr>) em)
                else
                  (let em = modify T_Collision dynamicCol (\<lambda>c. c\<lparr>collidedBottom := True\<rparr>) em
                   in modify T_Collision staticCol (\<lambda>c. c\<lparr>collidedTop := True\<rparr>) em))
      in do {
        hasLocation \<leftarrow> HasComponent T_Location em dynamicEntity;
        if hasLocation then do {
          location \<leftarrow> GetComponent T_Location em dynamicEntity;
          let separation = (if dynamicIsBelow then vertical overlap else - vertical overlap);
          let em = modify T_Location location (add_pos_y separation) em;
          let em = modify T_Collision dynamicCol (add_box_y separation) em;
          hasMovement \<leftarrow> HasComponent T_Movement em dynamicEntity;
          if hasMovement then do {
            movement \<leftarrow> GetComponent T_Movement em dynamicEntity;
            if dynamicEntity \<noteq> thePlayer then
              (let em = (if (dynamicIsBelow \<and> vel_y em movement < 0)
                            \<or> (\<not> dynamicIsBelow \<and> vel_y em movement > 0)
                         then modify T_Movement movement
                                (set_vel_y (- vel_y em movement * bounceDamping)) em
                         else em)
               in if \<not> dynamicIsBelow \<and> \<bar>vel_y em movement\<bar> < 10
                  then Some (modify T_Movement movement (set_vel_x 0) em)
                  else Some em)
            else do {
              let em = (if \<not> dynamicIsBelow \<and> vel_y em movement > 0
                        then modify T_Movement movement (set_vel_y 0) em
                        else if dynamicIsBelow \<and> vel_y em movement < 0
                        then modify T_Movement movement (set_vel_y 0) em
                        else em);
              if \<not> wasStandingLast (deref T_Collision em dynamicCol) then do {
                shake \<leftarrow> GetComponent T_CameraShake em theCamera;
                let em = modify T_CameraShake shake (\<lambda>s. s\<lparr>isShaking := True\<rparr>) em;
                Some (modify T_CameraShake shake (\<lambda>s. s\<lparr>shake_horizontal := False\<rparr>) em)
              } else Some em
            }
          } else Some em
        } else Some em
      })"

text \<open>
  \<open>ResolveCollision\<close>. The two assertions at its head come first; then the branch is
  chosen by the static flags and by the axis of the smaller penetration.
\<close>

definition ResolveCollision ::
  "nat \<Rightarrow> nat \<Rightarrow> nat \<Rightarrow> nat \<Rightarrow> Overlap \<Rightarrow> EntityManager \<Rightarrow> nat \<Rightarrow> nat
     \<Rightarrow> EntityManager option" where
  "ResolveCollision entity1 entity2 c1 c2 overlap em theCamera thePlayer =
     do {
       _ \<leftarrow> (if \<not> isStatic (deref T_Collision em c1)
              then do { h \<leftarrow> HasComponent T_Location em entity1; assert_that h }
              else Some ());
       _ \<leftarrow> (if \<not> isStatic (deref T_Collision em c2)
              then do { h \<leftarrow> HasComponent T_Location em entity2; assert_that h }
              else Some ());
       let separateHorizontally = (horizontal overlap < vertical overlap);
       if \<not> isStatic (deref T_Collision em c1) \<and> \<not> isStatic (deref T_Collision em c2) then do {
         has1 \<leftarrow> HasComponent T_Location em entity1;
         has2 \<leftarrow> (if has1 then HasComponent T_Location em entity2 else Some False);
         if \<not> has1 \<or> \<not> has2 then Some em
         else do {
           l1 \<leftarrow> GetComponent T_Location em entity1;
           l2 \<leftarrow> GetComponent T_Location em entity2;
           if separateHorizontally
           then ResolveDynamicHorizontal entity1 entity2 c1 c2 l1 l2 overlap em thePlayer
           else ResolveDynamicVertical entity1 entity2 c1 c2 l1 l2 overlap em
         }
       }
       else if separateHorizontally
       then ResolveStaticHorizontal entity1 entity2 c1 c2 overlap em theCamera thePlayer
       else ResolveStaticVertical entity1 entity2 c1 c2 overlap em theCamera thePlayer
     }"

section \<open>The collision system (engine/systems/CollisionSystem.h)\<close>

text \<open>
  A loop over a vector whose body may fail: the body is run on each element in turn,
  and a failure ends the run.
\<close>

fun for_each :: "('a \<Rightarrow> 's \<Rightarrow> 's option) \<Rightarrow> 'a list \<Rightarrow> 's \<Rightarrow> 's option" where
  "for_each body [] st = Some st"
| "for_each body (e # es) st =
     (case body e st of None \<Rightarrow> None | Some st' \<Rightarrow> for_each body es st')"

text \<open>
  The body of the first loop of \<open>CollisionSystem\<close>. The state is the manager together
  with the locals \<open>theCamera\<close>, \<open>thePlayer\<close> and \<open>entities\<close>.
\<close>

definition CollisionSystem_collect ::
  "Entity \<Rightarrow> EntityManager \<times> nat \<times> nat \<times> nat list
     \<Rightarrow> (EntityManager \<times> nat \<times> nat \<times> nat list) option" where
  "CollisionSystem_collect entity st =
     (case st of (em, theCamera, thePlayer, entities) \<Rightarrow>
        if ent_id entity = 0 then Some (em, theCamera, thePlayer, entities)
        else do {
          hasCollision \<leftarrow> HasComponent T_Collision em (ent_id entity);
          (em, entities) \<leftarrow>
            (if hasCollision then do {
               collision \<leftarrow> GetComponent T_Collision em (ent_id entity);
               let em = modify T_Collision collision clearCollisions em;
               hasLocation \<leftarrow> HasComponent T_Location em (ent_id entity);
               em \<leftarrow>
                 (if hasLocation then
                    (if \<not> isStatic (deref T_Collision em collision)
                        \<or> \<not> boundingBoxInitialized (deref T_Collision em collision)
                     then do {
                       location \<leftarrow> GetComponent T_Location em (ent_id entity);
                       let em = modify T_Collision collision
                          (\<lambda>c. c\<lparr>currentBoundingBox := (currentBoundingBox c)
                                  \<lparr>topLeft := point_add
                                     (position (deref T_Location em location))
                                     (boundingBoxOffset c)\<rparr>\<rparr>) em;
                       Some (modify T_Collision collision
                               (\<lambda>c. c\<lparr>boundingBoxInitialized := True\<rparr>) em)
                     }
                     else Some em)
                  else None);
               Some (em, entities @ [ent_id entity])
             }
             else Some (em, entities));
          name \<leftarrow> GetEntityName em (ent_id entity);
          let theCamera = (if name = ''main_camera'' then ent_id entity else theCamera);
          hasInput \<leftarrow> HasComponent T_Input em (ent_id entity);
          let thePlayer = (if hasInput then ent_id entity else thePlayer);
          Some (em, theCamera, thePlayer, entities)
        })"

text \<open>
  The body of the pair loop, for the pair \<open>entities[i]\<close>, \<open>entities[j]\<close>. The state is
  the entity manager and the sound manager.
\<close>

definition CollisionSystem_pair ::
  "nat \<Rightarrow> nat \<Rightarrow> nat \<Rightarrow> nat \<Rightarrow> EntityManager \<times> SoundManager
     \<Rightarrow> (EntityManager \<times> SoundManager) option" where
  "CollisionSystem_pair theCamera thePlayer entity1 entity2 st =
     (case st of (em, soundManager) \<Rightarrow>
        if \<not> ValidEntity em entity1 \<or> \<not> ValidEntity em entity2 then Some (em, soundManager)
        else do {
          collision1 \<leftarrow> GetComponent T_Collision em entity1;
          collision2 \<leftarrow> GetComponent T_Collision em entity2;
          if isStatic (deref T_Collision em collision1)
             \<and> isStatic (deref T_Collision em collision2)
          then Some (em, soundManager)
          else if \<not> RectIntersect (currentBoundingBox (deref T_Collision em collision1))
                                   (currentBoundingBox (deref T_Collision em collision2))
          then Some (em, soundManager)
          else do {
            isStar2 \<leftarrow> (if entity1 = thePlayer
                         then map_option (\<lambda>n. n = ''star'') (GetEntityName em entity2)
                         else Some False);
            isStar1 \<leftarrow> (if \<not> isStar2 \<and> entity2 = thePlayer
                         then map_option (\<lambda>n. n = ''star'') (GetEntityName em entity1)
                         else Some False);
            let star = (if isStar2 then entity2 else if isStar1 then entity1 else 0);
            if star \<noteq> 0 then do {
              score_ref \<leftarrow> GetComponent T_Score em thePlayer;
              sprite \<leftarrow> GetComponent T_Sprite em star;
              let em = modify T_Score score_ref (\<lambda>s. s\<lparr>score := score s + 10\<rparr>) em;
              let em = modify T_Sprite sprite (\<lambda>s. s\<lparr>isAlive := False\<rparr>) em;
              em \<leftarrow> RemoveEntity em star;
              soundManager \<leftarrow> PlaySound soundManager ''sparkle'';
              Some (em, soundManager)
            }
            else do {
              let overlap = CalculateOverlap
                   (currentBoundingBox (deref T_Collision em collision1))
                   (currentBoundingBox (deref T_Collision em collision2));
              em \<leftarrow> ResolveCollision entity1 entity2 collision1 collision2 overlap em
                      theCamera thePlayer;
              Some (em, soundManager)
            }
          }
        })"





section \<open>Gravity and movement (engine/systems/GravitySystem.h, MovementSystem.h)\<close>







section \<open>The entity iterations of the other per-frame systems\<close>









section \<open>Vocabulary of the statements\<close>

text \<open>
  The getter and the setter of a component type address one storage of the tuple
  (\<open>lens\<close>), and the storages of two different component types are apart (\<open>indep\<close>).
\<close>

definition lens :: "'c comp_type \<Rightarrow> bool" where
  "lens T \<longleftrightarrow> (\<forall>s r. get_reg T (set_reg T s r) = s)"

definition indep :: "'c comp_type \<Rightarrow> 'd comp_type \<Rightarrow> bool" where
  "indep T T' \<longleftrightarrow> (\<forall>s r. get_reg T (set_reg T' s r) = get_reg T r)"

text \<open>
  \<open>has_at T em e s\<close>: the valid entity \<open>e\<close> holds a component of type \<open>T\<close>, stored in the
  valid slot \<open>s\<close>. \<open>lacks T em e\<close>: the valid entity \<open>e\<close> holds no component of type \<open>T\<close>.
\<close>

definition has_at :: "'c comp_type \<Rightarrow> EntityManager \<Rightarrow> nat \<Rightarrow> nat \<Rightarrow> bool" where
  "has_at T em e s \<longleftrightarrow>
     ValidEntity em e
     \<and> mEntityToComponentIdx em ! e ! type_id T = s
     \<and> s \<noteq> INVALID_COMPONENT_INDEX
     \<and> cs_valid (get_reg T (mRegistries em)) s
     \<and> s < length (mStorage (get_reg T (mRegistries em)))"

definition lacks :: "'c comp_type \<Rightarrow> EntityManager \<Rightarrow> nat \<Rightarrow> bool" where
  "lacks T em e \<longleftrightarrow>
     ValidEntity em e \<and> mEntityToComponentIdx em ! e ! type_id T = INVALID_COMPONENT_INDEX"

definition pos_x :: "EntityManager \<Rightarrow> nat \<Rightarrow> real" where
  "pos_x em l = pt_x (position (deref T_Location em l))"

definition pos_y :: "EntityManager \<Rightarrow> nat \<Rightarrow> real" where
  "pos_y em l = pt_y (position (deref T_Location em l))"

text \<open>
  \<open>reg_valid r t c\<close>: slot \<open>c\<close> is valid in the storage with type index \<open>t\<close>.
  \<open>entity_ok em e\<close>: every component that the index table lists for \<open>e\<close> is stored in a
  valid slot, so that no \<open>remove\<close> of \<open>RemoveEntity\<close> trips its assertion.
\<close>

definition reg_valid :: "Registries \<Rightarrow> nat \<Rightarrow> nat \<Rightarrow> bool" where
  "reg_valid r compTypeID compID =
    (if compTypeID = 0 then cs_valid (reg_Location r) compID
     else if compTypeID = 1 then cs_valid (reg_Movement r) compID
     else if compTypeID = 2 then cs_valid (reg_Acceleration r) compID
     else if compTypeID = 3 then cs_valid (reg_Collision r) compID
     else if compTypeID = 4 then cs_valid (reg_Sprite r) compID
     else if compTypeID = 5 then cs_valid (reg_Spawn r) compID
     else if compTypeID = 6 then cs_valid (reg_Camera r) compID
     else if compTypeID = 7 then cs_valid (reg_CameraFollower r) compID
     else if compTypeID = 8 then cs_valid (reg_Input r) compID
     else if compTypeID = 9 then cs_valid (reg_CameraShake r) compID
     else if compTypeID = 10 then cs_valid (reg_Score r) compID
     else if compTypeID = 11 then cs_valid (reg_Time r) compID
     else True)"

definition entity_ok :: "EntityManager \<Rightarrow> nat \<Rightarrow> bool" where
  "entity_ok em e \<longleftrightarrow>
     (\<forall>t \<in> set [0..<NUM_COMPONENTS].
        mEntityToComponentIdx em ! e ! t \<noteq> INVALID_COMPONENT_INDEX \<longrightarrow>
        reg_valid (mRegistries em) t (mEntityToComponentIdx em ! e ! t))"


section \<open>A scene for the instances\<close>

text \<open>
  The instances of the theorems below are taken in one scene, built through the public
  operations of the manager: a tile (the first entity, id 0), a static ground box, the
  player landing on it, the camera, two crates moving toward each other, a star that
  overlaps the player, a crate falling onto the player, and a wall that the second crate
  touches. \<open>spawn_body\<close> creates an entity with a position, a sprite and a collision box,
  as the map loader and the spawn system do.
\<close>

definition spawn_body ::
  "string \<Rightarrow> real \<Rightarrow> real \<Rightarrow> int \<Rightarrow> int \<Rightarrow> bool \<Rightarrow> EntityManager \<Rightarrow> (nat \<times> EntityManager) option" where
  "spawn_body name px py w h static em =
     (let (e, em) = CreateEntity em name
      in do {
        em \<leftarrow> AddComponent T_Location em e \<lparr>position = \<lparr>pt_x = px, pt_y = py\<rparr>\<rparr>;
        em \<leftarrow> AddComponent T_Sprite em e SpriteComponent_default;
        em \<leftarrow> AddComponent T_Collision em e
               (CollisionComponent_of \<lparr>topLeft = \<lparr>pt_x = 0, pt_y = 0\<rparr>, width = w, height = h\<rparr> static);
        Some (e, em)
      })"

definition add_velocity :: "real \<Rightarrow> real \<Rightarrow> nat \<Rightarrow> EntityManager \<Rightarrow> EntityManager option" where
  "add_velocity vx vy e em =
     AddComponent T_Movement em e \<lparr>velocity = \<lparr>pt_x = vx, pt_y = vy\<rparr>, maxSpeed = 300\<rparr>"

definition demo_spawned :: "EntityManager option" where
  "demo_spawned =
     do {
       (tile, em) \<leftarrow> spawn_body ''tile'' 500 500 32 32 True em_empty;
       (ground, em) \<leftarrow> spawn_body ''ground'' 0 0 32 32 True em;
       (player, em) \<leftarrow> spawn_body ''player'' 0 (- 28) 32 32 False em;
       em \<leftarrow> add_velocity 0 200 player em;
       em \<leftarrow> AddComponent T_Input em player InputComponent_default;
       em \<leftarrow> AddComponent T_Score em player ScoreComponent_default;
       (camera, em) \<leftarrow> Some (CreateEntity em ''main_camera'');
       em \<leftarrow> AddComponent T_CameraShake em camera CameraShake_default;
       (crateA, em) \<leftarrow> spawn_body ''crate'' 100 0 32 32 False em;
       em \<leftarrow> add_velocity 100 0 crateA em;
       (crateB, em) \<leftarrow> spawn_body ''crate'' 122 0 32 32 False em;
       em \<leftarrow> add_velocity (- 100) 0 crateB em;
       (star, em) \<leftarrow> spawn_body ''star'' 16 (- 44) 32 32 False em;
       em \<leftarrow> add_velocity 0 50 star em;
       (crateC, em) \<leftarrow> spawn_body ''crate'' 0 (- 56) 32 32 False em;
       em \<leftarrow> add_velocity 0 50 crateC em;
       (wall, em) \<leftarrow> spawn_body ''wall'' 154 0 32 32 True em;
       Some em
     }"

text \<open>
  \<open>demo_start\<close> is the scene as built, \<open>demo_em\<close> the scene after the collecting loop of
  the collision system has placed the bounding boxes; the loop finds the camera (3), the
  player (2) and the collidable entities.
\<close>

definition demo_collected :: "(EntityManager \<times> nat \<times> nat \<times> nat list) option" where
  "demo_collected =
     do {
       em \<leftarrow> demo_spawned;
       for_each CollisionSystem_collect (mEntities em) (em, 0, 0, [])
     }"

definition demo_start :: EntityManager where
  "demo_start = (case demo_spawned of Some em \<Rightarrow> em | None \<Rightarrow> em_empty)"

definition demo_em :: EntityManager where
  "demo_em = (case demo_collected of Some st \<Rightarrow> fst st | None \<Rightarrow> em_empty)"

definition demo_sound :: SoundManager where
  "demo_sound = \<lparr>mSounds = [''jump'', ''sparkle''], played = []\<rparr>"

text \<open>A manager in which entity 0 has been created and destroyed.\<close>

definition demo_destroyed :: EntityManager where
  "demo_destroyed =
     (case RemoveEntity (snd (CreateEntity em_empty ''A'')) 0 of
        Some em \<Rightarrow> em | None \<Rightarrow> em_empty)"



text \<open>The vertical velocity stored in a movement slot after a call that may fail.\<close>

definition vel_y_after :: "EntityManager option \<Rightarrow> nat \<Rightarrow> real option" where
  "vel_y_after r m = map_option (\<lambda>em. vel_y em m) r"



text \<open>The current bounding box stored in a collision slot.\<close>

definition box_of :: "EntityManager \<Rightarrow> nat \<Rightarrow> Rect" where
  "box_of em c = currentBoundingBox (deref T_Collision em c)"

section \<open>The AABB overlap test\<close>

text \<open>
  C6. \<open>RectIntersect\<close> is false as soon as the X extents are disjoint or merely touch
  (the right edge of one rectangle at or before the left edge of the other), whatever
  the Y extents are, and symmetrically for Y; in particular \<open>right1 = left2\<close> is not a
  collision. An intersection is reported exactly when all four edge comparisons are
  strict.
\<close>

theorem RectIntersect_strict:
  "(rectRight r1 \<le> pt_x (topLeft r2) \<or> rectRight r2 \<le> pt_x (topLeft r1)
      \<longrightarrow> \<not> RectIntersect r1 r2)
   \<and> (rectBottom r1 \<le> pt_y (topLeft r2) \<or> rectBottom r2 \<le> pt_y (topLeft r1)
      \<longrightarrow> \<not> RectIntersect r1 r2)
   \<and> (rectRight r1 = pt_x (topLeft r2) \<longrightarrow> \<not> RectIntersect r1 r2)
   \<and> (RectIntersect r1 r2 \<longleftrightarrow>
        pt_x (topLeft r1) < rectRight r2 \<and> pt_x (topLeft r2) < rectRight r1
        \<and> pt_y (topLeft r1) < rectBottom r2 \<and> pt_y (topLeft r2) < rectBottom r1)"
  by (auto simp: RectIntersect_def Let_def)

theorem RectIntersect_strict_witness:
  "rectRight \<lparr>topLeft = \<lparr>pt_x = 0, pt_y = 0\<rparr>, width = 32, height = 32\<rparr>
     = pt_x (topLeft \<lparr>topLeft = \<lparr>pt_x = 32, pt_y = 0\<rparr>, width = 32, height = 32\<rparr>)
   \<and> \<not> RectIntersect \<lparr>topLeft = \<lparr>pt_x = 0, pt_y = 0\<rparr>, width = 32, height = 32\<rparr>
                     \<lparr>topLeft = \<lparr>pt_x = 32, pt_y = 0\<rparr>, width = 32, height = 32\<rparr>
   \<and> RectIntersect \<lparr>topLeft = \<lparr>pt_x = 0, pt_y = 0\<rparr>, width = 32, height = 32\<rparr>
                   \<lparr>topLeft = \<lparr>pt_x = 31, pt_y = 31\<rparr>, width = 32, height = 32\<rparr>"
proof -
  let ?a = "\<lparr>topLeft = \<lparr>pt_x = 0, pt_y = 0\<rparr>, width = 32, height = 32\<rparr>"
  let ?b = "\<lparr>topLeft = \<lparr>pt_x = 32, pt_y = 0\<rparr>, width = 32, height = 32\<rparr>"
  let ?c = "\<lparr>topLeft = \<lparr>pt_x = 31, pt_y = 31\<rparr>, width = 32, height = 32\<rparr>"
  have touch: "rectRight ?a = pt_x (topLeft ?b)"
    by (simp add: rectRight_def)
  have no: "\<not> RectIntersect ?a ?b"
    using RectIntersect_strict [of ?a ?b] touch by blast
  have yes: "RectIntersect ?a ?c"
    using RectIntersect_strict [of ?a ?c] by (simp add: rectRight_def rectBottom_def)
  from touch no yes show ?thesis by blast
qed


section \<open>The storage counter\<close>


lemma filter_update_True:
  "i < length xs \<Longrightarrow> \<not> xs ! i \<Longrightarrow>
   length (filter (\<lambda>b. b) (xs[i := True])) = Suc (length (filter (\<lambda>b. b) xs))"
  by (induction xs arbitrary: i) (auto split: nat.splits)

lemma filter_update_False:
  "i < length xs \<Longrightarrow> xs ! i \<Longrightarrow>
   Suc (length (filter (\<lambda>b. b) (xs[i := False]))) = length (filter (\<lambda>b. b) xs)"
  by (induction xs arbitrary: i) (auto split: nat.splits)

lemma size_t_inc_small: "n + 1 < 2 ^ 64 \<Longrightarrow> size_t_inc n = n + 1"
  by (simp add: size_t_inc_def)

lemma size_t_dec_small: "0 < n \<Longrightarrow> n < 2 ^ 64 \<Longrightarrow> size_t_dec n = n - 1"
proof -
  assume a: "0 < n" "n < 2 ^ 64"
  have "n + (2 ^ 64 - 1) = (n - 1) + 1 * 2 ^ 64" using a by simp
  then have "(n + (2 ^ 64 - 1)) mod 2 ^ 64 = (n - 1) mod 2 ^ 64"
    by (metis mod_mult_self1)
  then show ?thesis using a by (simp add: size_t_dec_def)
qed

lemma cs_inv_empty: "cs_inv cs_empty"
  by (simp add: cs_inv_def cs_empty_def num_valid_def)

lemma cs_store_inv:
  assumes "cs_inv s" and "mCount s + 1 < 2 ^ 64"
  shows "cs_inv (snd (cs_store s v)) \<and> mCount (snd (cs_store s v)) = mCount s + 1"
proof (cases "mFreeList s = []")
  case True
  with assms show ?thesis
    by (simp add: cs_store_def cs_inv_def num_valid_def size_t_inc_small)
next
  case False
  let ?i = "last (mFreeList s)"
  from False have mem: "?i \<in> set (mFreeList s)" by simp
  with assms(1) have i: "?i < length (mValid s)" "\<not> mValid s ! ?i"
    by (auto simp: cs_inv_def)
  from False have split: "mFreeList s = butlast (mFreeList s) @ [?i]" by simp
  from assms(1) have "distinct (butlast (mFreeList s) @ [?i])"
    using split by (simp add: cs_inv_def)
  then have d: "distinct (butlast (mFreeList s))" "?i \<notin> set (butlast (mFreeList s))"
    by auto
  have rest: "\<forall>j \<in> set (butlast (mFreeList s)). j < length (mValid s) \<and> \<not> (mValid s)[?i := True] ! j"
  proof
    fix j assume j: "j \<in> set (butlast (mFreeList s))"
    then have "j \<in> set (mFreeList s)" by (rule in_set_butlastD)
    with assms(1) have "j < length (mValid s)" "\<not> mValid s ! j" by (auto simp: cs_inv_def)
    moreover from j d have "j \<noteq> ?i" by auto
    ultimately show "j < length (mValid s) \<and> \<not> (mValid s)[?i := True] ! j" by simp
  qed
  from False assms i d rest show ?thesis
    by (simp add: cs_store_def cs_inv_def num_valid_def Let_def size_t_inc_small filter_update_True)
qed

lemma cs_remove_inv:
  assumes "cs_inv s" and "mCount s < 2 ^ 64" and "cs_remove dflt s i = Some s'"
  shows "cs_inv s' \<and> mCount s' + 1 = mCount s"
proof -
  from assms(3) have v: "i < length (mValid s)" "mValid s ! i"
    and s': "s' = s\<lparr>mValid := (mValid s)[i := False], mStorage := (mStorage s)[i := dflt],
                     mFreeList := mFreeList s @ [i], mCount := size_t_dec (mCount s)\<rparr>"
    by (auto simp: cs_remove_def cs_valid_def split: if_splits)
  from v have cnt: "Suc (length (filter (\<lambda>b. b) ((mValid s)[i := False]))) = num_valid s"
    by (simp add: num_valid_def filter_update_False)
  with assms(1) have pos: "0 < mCount s" by (simp add: cs_inv_def)
  from assms(1) v have notin: "i \<notin> set (mFreeList s)" by (auto simp: cs_inv_def)
  have "\<forall>j \<in> set (mFreeList s). j < length (mValid s) \<and> \<not> (mValid s)[i := False] ! j"
  proof
    fix j assume j: "j \<in> set (mFreeList s)"
    with assms(1) have "j < length (mValid s)" "\<not> mValid s ! j" by (auto simp: cs_inv_def)
    moreover from j notin have "i \<noteq> j" by auto
    ultimately show "j < length (mValid s) \<and> \<not> (mValid s)[i := False] ! j" by simp
  qed
  with assms(1) v cnt pos notin assms(2) show ?thesis
    by (simp add: s' cs_inv_def num_valid_def size_t_dec_small)
qed

lemma run_ops_inv:
  "cs_inv s \<Longrightarrow> mCount s + num_stores ops < 2 ^ 64 \<Longrightarrow> run_ops dflt s ops = Some s' \<Longrightarrow>
   cs_inv s' \<and> mCount s' + num_removes ops = mCount s + num_stores ops"
proof (induction ops arbitrary: s)
  case Nil
  then show ?case by (simp add: num_stores_def num_removes_def)
next
  case (Cons p ops)
  show ?case
  proof (cases p)
    case (Store v)
    from Cons.prems(2) Store have b: "mCount s + 1 < 2 ^ 64"
      by (simp add: num_stores_def)
    from cs_store_inv [OF Cons.prems(1) b, of v]
    have st: "cs_inv (snd (cs_store s v))" "mCount (snd (cs_store s v)) = mCount s + 1" by auto
    from Cons.prems(2) Store st have b2: "mCount (snd (cs_store s v)) + num_stores ops < 2 ^ 64"
      by (simp add: num_stores_def)
    from Cons.prems(3) Store have r: "run_ops dflt (snd (cs_store s v)) ops = Some s'" by simp
    from Cons.IH [OF st(1) b2 r] st(2) Store show ?thesis
      by (simp add: num_stores_def num_removes_def)
  next
    case (Remove i)
    from Cons.prems(3) Remove obtain s1 where
      rm: "cs_remove dflt s i = Some s1" and r: "run_ops dflt s1 ops = Some s'"
      by (auto split: option.splits)
    from Cons.prems(2) have b: "mCount s < 2 ^ 64" by simp
    from cs_remove_inv [OF Cons.prems(1) b rm]
    have st: "cs_inv s1" "mCount s1 + 1 = mCount s" by auto
    from Cons.prems(2) Remove st have b2: "mCount s1 + num_stores ops < 2 ^ 64"
      by (simp add: num_stores_def)
    from Cons.IH [OF st(1) b2 r] st(2) Remove show ?thesis
      by (simp add: num_stores_def num_removes_def)
  qed
qed

lemma run_ops_append:
  "run_ops dflt s (xs @ ys) =
     (case run_ops dflt s xs of None \<Rightarrow> None | Some s' \<Rightarrow> run_ops dflt s' ys)"
proof (induction xs arbitrary: s)
  case Nil
  show ?case by simp
next
  case (Cons p xs)
  then show ?case by (cases p) (simp_all split: option.splits)
qed

lemma num_stores_take: "num_stores (take k ops) \<le> num_stores ops"
proof -
  have "num_stores ops = num_stores (take k ops) + num_stores (drop k ops)"
    unfolding num_stores_def by (metis append_take_drop_id filter_append length_append)
  then show ?thesis by simp
qed

text \<open>
  C8. Starting from an empty storage, after every prefix of a sequence of \<open>store\<close> and
  \<open>remove\<close> calls in which each \<open>remove\<close> targets a slot valid at that moment (the
  run does not fail) and with fewer than \<open>2 ^ 64\<close> stores, no more removes than stores
  have happened, \<open>size()\<close> is the number of stores minus the number of removes, and
  it is the number of slots whose validity marker is true.
\<close>

theorem storage_count:
  assumes run: "run_ops dflt cs_empty ops = Some s"
    and bound: "num_stores ops < 2 ^ 64"
    and k: "k \<le> length ops"
  shows "\<exists>sk. run_ops dflt cs_empty (take k ops) = Some sk
           \<and> num_removes (take k ops) \<le> num_stores (take k ops)
           \<and> cs_size sk = num_stores (take k ops) - num_removes (take k ops)
           \<and> cs_size sk = num_valid sk"
proof -
  have "(case run_ops dflt cs_empty (take k ops) of None \<Rightarrow> None
          | Some s' \<Rightarrow> run_ops dflt s' (drop k ops)) = Some s"
    using run run_ops_append [of dflt cs_empty "take k ops" "drop k ops"] by simp
  then obtain sk where sk: "run_ops dflt cs_empty (take k ops) = Some sk"
    by (cases "run_ops dflt cs_empty (take k ops)") auto
  have b: "mCount (cs_empty :: 'a ComponentStorage) + num_stores (take k ops) < 2 ^ 64"
    using bound num_stores_take [of k ops] by (simp add: cs_empty_def)
  from run_ops_inv [OF cs_inv_empty b sk]
  have "cs_inv sk" "mCount sk + num_removes (take k ops) = num_stores (take k ops)"
    by (simp_all add: cs_empty_def)
  then show ?thesis using sk by (simp add: cs_size_def cs_inv_def)
qed


theorem storage_count_witness:
  "run_ops (0::nat) cs_empty [Store 5, Store 7, Remove 0, Store 9, Remove 1]
     = Some \<lparr>mStorage = [9, 0], mValid = [True, False], mFreeList = [1], mCount = 1\<rparr>
   \<and> run_ops (0::nat) cs_empty (take 3 [Store 5, Store 7, Remove 0, Store 9, Remove 1])
     = Some \<lparr>mStorage = [0, 7], mValid = [False, True], mFreeList = [0], mCount = 1\<rparr>
   \<and> cs_size \<lparr>mStorage = [0, 7::nat], mValid = [False, True], mFreeList = [0], mCount = 1\<rparr>
       = num_stores (take 3 [Store (5::nat), Store 7, Remove 0, Store 9, Remove 1])
         - num_removes (take 3 [Store (5::nat), Store 7, Remove 0, Store 9, Remove 1])"
proof -
  let ?ops = "[Store (5::nat), Store 7, Remove 0, Store 9, Remove 1]"
  have run: "run_ops (0::nat) cs_empty ?ops
     = Some \<lparr>mStorage = [9, 0], mValid = [True, False], mFreeList = [1], mCount = 1\<rparr>"
    by (simp add: cs_empty_def cs_store_def cs_remove_def cs_valid_def size_t_inc_def size_t_dec_def)
  have pre: "run_ops (0::nat) cs_empty (take 3 ?ops)
     = Some \<lparr>mStorage = [0, 7], mValid = [False, True], mFreeList = [0], mCount = 1\<rparr>"
    by (simp add: cs_empty_def cs_store_def cs_remove_def cs_valid_def size_t_inc_def size_t_dec_def)
  have bound: "num_stores ?ops < 2 ^ 64" by (simp add: num_stores_def)
  have k: "(3::nat) \<le> length ?ops" by simp
  from storage_count [OF run bound k] pre run show ?thesis
    by auto
qed

section \<open>Entity ids\<close>

lemma RemoveEntity_loop_absent:
  "\<forall>t \<in> set ts. mEntityToComponentIdx em ! entity ! t = INVALID_COMPONENT_INDEX \<Longrightarrow>
   RemoveEntity_loop ts entity em = Some em"
  by (induction ts) simp_all

lemma replicate_row_absent:
  "mEntityToComponentIdx em ! entity = replicate NUM_COMPONENTS INVALID_COMPONENT_INDEX \<Longrightarrow>
   \<forall>t \<in> set [0..<NUM_COMPONENTS]. mEntityToComponentIdx em ! entity ! t = INVALID_COMPONENT_INDEX"
  by simp

lemma type_ids: "[0..<NUM_COMPONENTS] = [0, 1, 2, 3, 4, 5, 6, 7, 8, 9, 10, 11]"
  unfolding NUM_COMPONENTS_def by code_simp

lemma em_inv_empty: "em_inv em_empty"
  by (simp add: em_inv_def em_empty_def)

lemma CreateEntity_fresh:
  assumes inv: "em_inv em" and cr: "CreateEntity em name = (a, em1)"
  shows "ValidEntity em1 a
         \<and> mEntityToComponentIdx em1 ! a = replicate NUM_COMPONENTS INVALID_COMPONENT_INDEX
         \<and> a \<notin> set (mFreeIds em1)
         \<and> em_inv em1"
proof (cases "mFreeIds em = []")
  case True
  with cr have a: "a = length (mEntityToComponentIdx em)"
    and em1: "em1 = em\<lparr>mValidIds := mValidIds em @ [True],
                     mEntityToComponentIdx := mEntityToComponentIdx em
                        @ [replicate NUM_COMPONENTS INVALID_COMPONENT_INDEX],
                     mEntities := mEntities em @ [\<lparr>ent_id = a, ent_name = name\<rparr>]\<rparr>"
    by (auto simp: CreateEntity_def Let_def)
  from inv have len: "length (mValidIds em) = length (mEntityToComponentIdx em)"
    by (simp add: em_inv_def)
  have "(mValidIds em @ [True]) ! length (mValidIds em)" by simp
  then have v: "ValidEntity em1 a" using len by (simp add: em1 a ValidEntity_def)
  have row: "mEntityToComponentIdx em1 ! a = replicate NUM_COMPONENTS INVALID_COMPONENT_INDEX"
    by (simp add: em1 a)
  have nf: "a \<notin> set (mFreeIds em1)" using True by (simp add: em1)
  have "em_inv em1"
    using inv True unfolding em_inv_def em1
    by (auto simp: nth_append less_Suc_eq)
  with v row nf show ?thesis by simp
next
  case False
  let ?fl = "mFreeIds em"
  from False cr have a: "a = last ?fl"
    and em1: "em1 = em\<lparr>mFreeIds := butlast ?fl,
                     mValidIds := (mValidIds em)[a := True],
                     mEntities := (mEntities em)
                        [a := (mEntities em ! a)\<lparr>ent_id := a, ent_name := name\<rparr>]\<rparr>"
    by (auto simp: CreateEntity_def Let_def)
  from False have mem: "a \<in> set ?fl" by (simp add: a)
  with inv have ar: "a < length (mValidIds em)" "\<not> mValidIds em ! a"
    by (auto simp: em_inv_def)
  from inv have len: "length (mValidIds em) = length (mEntityToComponentIdx em)"
    by (simp add: em_inv_def)
  from False have split: "?fl = butlast ?fl @ [a]" by (simp add: a)
  from inv have "distinct (butlast ?fl @ [a])" using split by (simp add: em_inv_def)
  then have d: "distinct (butlast ?fl)" "a \<notin> set (butlast ?fl)" by auto
  have v: "ValidEntity em1 a" using ar by (simp add: em1 ValidEntity_def)
  have row: "mEntityToComponentIdx em1 ! a = replicate NUM_COMPONENTS INVALID_COMPONENT_INDEX"
    using inv ar len by (simp add: em1 em_inv_def)
  have nf: "a \<notin> set (mFreeIds em1)" using d by (simp add: em1)
  have free: "\<forall>e \<in> set (butlast ?fl). e < length (mValidIds em) \<and> \<not> (mValidIds em)[a := True] ! e"
  proof
    fix e assume e: "e \<in> set (butlast ?fl)"
    then have "e \<in> set ?fl" by (rule in_set_butlastD)
    with inv have "e < length (mValidIds em)" "\<not> mValidIds em ! e" by (auto simp: em_inv_def)
    moreover from e d have "a \<noteq> e" by auto
    ultimately show "e < length (mValidIds em) \<and> \<not> (mValidIds em)[a := True] ! e" by simp
  qed
  have rows: "\<forall>e < length (mEntityToComponentIdx em). \<not> (mValidIds em)[a := True] ! e \<longrightarrow>
           mEntityToComponentIdx em ! e = replicate NUM_COMPONENTS INVALID_COMPONENT_INDEX"
  proof (intro allI impI)
    fix e assume e: "e < length (mEntityToComponentIdx em)" "\<not> (mValidIds em)[a := True] ! e"
    with len have "e \<noteq> a" by (auto simp: nth_list_update split: if_splits)
    with e have "\<not> mValidIds em ! e" by simp
    with inv e show "mEntityToComponentIdx em ! e = replicate NUM_COMPONENTS INVALID_COMPONENT_INDEX"
      by (simp add: em_inv_def)
  qed
  have "em_inv em1"
    using inv d free rows unfolding em_inv_def em1 by simp
  with v row nf show ?thesis by simp
qed

lemma RemoveEntity_fresh:
  assumes v: "ValidEntity em1 a"
    and row: "mEntityToComponentIdx em1 ! a = replicate NUM_COMPONENTS INVALID_COMPONENT_INDEX"
  shows "RemoveEntity em1 a =
           Some (em1\<lparr>mEntities := (mEntities em1)
                          [a := (mEntities em1 ! a)\<lparr>ent_name := [], ent_id := 0\<rparr>],
                       mValidIds := (mValidIds em1)[a := False],
                       mFreeIds := mFreeIds em1 @ [a]\<rparr>)"
  using v RemoveEntity_loop_absent [OF replicate_row_absent [OF row]]
  by (simp add: RemoveEntity_def)

lemma recycle_steps:
  assumes inv: "em_inv em"
  shows "\<exists>a em2 em3. create_destroy_create em nameA nameB = Some (a, em2, a, em3)
           \<and> \<not> ValidEntity em2 a \<and> ValidEntity em3 a"
proof -
  obtain a em1 where cr: "CreateEntity em nameA = (a, em1)" by (cases "CreateEntity em nameA")
  from CreateEntity_fresh [OF inv cr]
  have v: "ValidEntity em1 a"
    and row: "mEntityToComponentIdx em1 ! a = replicate NUM_COMPONENTS INVALID_COMPONENT_INDEX"
    by simp_all
  let ?em2 = "em1\<lparr>mEntities := (mEntities em1)
                          [a := (mEntities em1 ! a)\<lparr>ent_name := [], ent_id := 0\<rparr>],
                       mValidIds := (mValidIds em1)[a := False],
                       mFreeIds := mFreeIds em1 @ [a]\<rparr>"
  have rm: "RemoveEntity em1 a = Some ?em2" by (rule RemoveEntity_fresh [OF v row])
  from v have ar: "a < length (mValidIds em1)" by (simp add: ValidEntity_def)
  have nv: "\<not> ValidEntity ?em2 a" using ar by (simp add: ValidEntity_def)
  obtain b em3 where cr2: "CreateEntity ?em2 nameB = (b, em3)" by (cases "CreateEntity ?em2 nameB")
  then have b: "b = a" and v3: "ValidEntity em3 a"
    using ar by (auto simp: CreateEntity_def Let_def ValidEntity_def)
  from cr rm cr2 b have "create_destroy_create em nameA nameB = Some (a, ?em2, a, em3)"
    by (simp add: create_destroy_create_def)
  with nv v3 show ?thesis by blast
qed

text \<open>
  C1, as the code has it. In every manager state that satisfies the invariant, the
  scenario create A, destroy A, create B runs without a failed assertion; after the
  destroy A's id fails the validity check; the second create takes A's id from the free
  list, so B's id equals A's id, and from then on \<open>ValidEntity\<close> accepts A's id again
  (it now denotes B: ids carry no generation).
\<close>

theorem recycled_id_valid:
  "em_inv em \<Longrightarrow>
   \<exists>a em2 em3. create_destroy_create em nameA nameB = Some (a, em2, a, em3)
      \<and> \<not> ValidEntity em2 a \<and> ValidEntity em3 a"
  by (rule recycle_steps)

theorem recycled_id_valid_witness:
  "em_inv em_empty
   \<and> (\<exists>a em2 em3. create_destroy_create em_empty ''A'' ''B'' = Some (a, em2, a, em3)
         \<and> \<not> ValidEntity em2 a \<and> ValidEntity em3 a)"
  using recycled_id_valid [OF em_inv_empty, of "''A''" "''B''"] em_inv_empty by blast

text \<open>
  C1 as stated fails: on a fresh manager, after create A, destroy A, create B, the
  validity check of A's id returns true.
\<close>

theorem recycled_id_counterexample:
  "stale_id_valid em_empty ''A'' ''B'' = Some True"
  using recycle_steps [OF em_inv_empty, of "''A''" "''B''"]
  by (auto simp: stale_id_valid_def)

text \<open>
  C9. \<open>RemoveEntity\<close> on an id that is not valid (never created, or already destroyed)
  returns normally and leaves the whole manager unchanged.
\<close>

theorem RemoveEntity_invalid_noop:
  "\<not> ValidEntity em entity \<Longrightarrow> RemoveEntity em entity = Some em"
  by (simp add: RemoveEntity_def)










section \<open>Reading and writing through component references\<close>

lemma lens_all [simp]:
  "lens T_Location" "lens T_Movement" "lens T_Collision" "lens T_Sprite"
  "lens T_Input" "lens T_CameraShake" "lens T_Score"
  by (simp_all add: lens_def T_Location_def T_Movement_def T_Collision_def T_Sprite_def
      T_Input_def T_CameraShake_def T_Score_def)

lemma indep_Location [simp]:
  "indep T_Location T_Movement" "indep T_Location T_Collision" "indep T_Location T_Sprite"
  "indep T_Location T_Input" "indep T_Location T_CameraShake" "indep T_Location T_Score"
  by (simp_all add: indep_def T_Location_def T_Movement_def T_Collision_def T_Sprite_def
      T_Input_def T_CameraShake_def T_Score_def)

lemma indep_Movement [simp]:
  "indep T_Movement T_Location" "indep T_Movement T_Collision" "indep T_Movement T_Sprite"
  "indep T_Movement T_Input" "indep T_Movement T_CameraShake" "indep T_Movement T_Score"
  by (simp_all add: indep_def T_Location_def T_Movement_def T_Collision_def T_Sprite_def
      T_Input_def T_CameraShake_def T_Score_def)

lemma indep_Collision [simp]:
  "indep T_Collision T_Location" "indep T_Collision T_Movement" "indep T_Collision T_Sprite"
  "indep T_Collision T_Input" "indep T_Collision T_CameraShake" "indep T_Collision T_Score"
  by (simp_all add: indep_def T_Location_def T_Movement_def T_Collision_def T_Sprite_def
      T_Input_def T_CameraShake_def T_Score_def)

lemma indep_Sprite [simp]:
  "indep T_Sprite T_Location" "indep T_Sprite T_Movement" "indep T_Sprite T_Collision"
  "indep T_Sprite T_Input" "indep T_Sprite T_CameraShake" "indep T_Sprite T_Score"
  by (simp_all add: indep_def T_Location_def T_Movement_def T_Collision_def T_Sprite_def
      T_Input_def T_CameraShake_def T_Score_def)

lemma indep_Input [simp]:
  "indep T_Input T_Location" "indep T_Input T_Movement" "indep T_Input T_Collision"
  "indep T_Input T_Sprite" "indep T_Input T_CameraShake" "indep T_Input T_Score"
  by (simp_all add: indep_def T_Location_def T_Movement_def T_Collision_def T_Sprite_def
      T_Input_def T_CameraShake_def T_Score_def)

lemma indep_CameraShake [simp]:
  "indep T_CameraShake T_Location" "indep T_CameraShake T_Movement"
  "indep T_CameraShake T_Collision" "indep T_CameraShake T_Sprite"
  "indep T_CameraShake T_Input" "indep T_CameraShake T_Score"
  by (simp_all add: indep_def T_Location_def T_Movement_def T_Collision_def T_Sprite_def
      T_Input_def T_CameraShake_def T_Score_def)

lemma indep_Score [simp]:
  "indep T_Score T_Location" "indep T_Score T_Movement" "indep T_Score T_Collision"
  "indep T_Score T_Sprite" "indep T_Score T_Input" "indep T_Score T_CameraShake"
  by (simp_all add: indep_def T_Location_def T_Movement_def T_Collision_def T_Sprite_def
      T_Input_def T_CameraShake_def T_Score_def)

lemma modify_frame [simp]:
  "mEntities (modify T s f em) = mEntities em"
  "mEntityToComponentIdx (modify T s f em) = mEntityToComponentIdx em"
  "mFreeIds (modify T s f em) = mFreeIds em"
  "mValidIds (modify T s f em) = mValidIds em"
  by (simp_all add: modify_def)

lemma modify_same_reg:
  "lens T \<Longrightarrow> get_reg T (mRegistries (modify T s f em)) =
     (get_reg T (mRegistries em))
        \<lparr>mStorage := (mStorage (get_reg T (mRegistries em)))
           [s := f (mStorage (get_reg T (mRegistries em)) ! s)]\<rparr>"
  by (simp add: modify_def lens_def)

lemma modify_other_reg:
  "indep T T' \<Longrightarrow> get_reg T (mRegistries (modify T' s f em)) = get_reg T (mRegistries em)"
  by (simp add: modify_def indep_def)

lemma ValidEntity_modify [simp]: "ValidEntity (modify T s f em) e = ValidEntity em e"
  by (simp add: ValidEntity_def)

lemma HasComponent_modify [simp]:
  "HasComponent T (modify T' s f em) e = HasComponent T em e"
  by (simp add: HasComponent_def)

lemma GetEntityName_modify [simp]:
  "GetEntityName (modify T' s f em) e = GetEntityName em e"
  by (simp add: GetEntityName_def)

lemma GetComponent_modify_same [simp]:
  "lens T \<Longrightarrow> GetComponent T (modify T s f em) e = GetComponent T em e"
  by (simp add: GetComponent_def modify_same_reg cs_valid_def)

lemma GetComponent_modify_other [simp]:
  "indep T T' \<Longrightarrow> GetComponent T (modify T' s f em) e = GetComponent T em e"
  by (simp add: GetComponent_def modify_other_reg)

lemma has_at_modify_same [simp]:
  "lens T \<Longrightarrow> has_at T (modify T s f em) e s' = has_at T em e s'"
  by (simp add: has_at_def modify_same_reg cs_valid_def)

lemma has_at_modify_other [simp]:
  "indep T T' \<Longrightarrow> has_at T (modify T' s f em) e s' = has_at T em e s'"
  by (simp add: has_at_def modify_other_reg)

lemma lacks_modify [simp]: "lacks T (modify T' s f em) e = lacks T em e"
  by (simp add: lacks_def)

lemma deref_modify_same:
  "lens T \<Longrightarrow> s < length (mStorage (get_reg T (mRegistries em))) \<Longrightarrow>
   deref T (modify T s f em) s' = (if s' = s then f (deref T em s) else deref T em s')"
  by (simp add: deref_def modify_same_reg)

lemma deref_modify_other [simp]:
  "indep T T' \<Longrightarrow> deref T (modify T' s f em) s' = deref T em s'"
  by (simp add: deref_def modify_other_reg)

lemma storage_length_modify_same [simp]:
  "lens T \<Longrightarrow> length (mStorage (get_reg T (mRegistries (modify T s f em))))
     = length (mStorage (get_reg T (mRegistries em)))"
  by (simp add: modify_same_reg)

lemma storage_length_modify_other [simp]:
  "indep T T' \<Longrightarrow> length (mStorage (get_reg T (mRegistries (modify T' s f em))))
     = length (mStorage (get_reg T (mRegistries em)))"
  by (simp add: modify_other_reg)

lemma has_at_Has: "has_at T em e s \<Longrightarrow> HasComponent T em e = Some True"
  by (simp add: has_at_def HasComponent_def)

lemma has_at_Get: "has_at T em e s \<Longrightarrow> GetComponent T em e = Some s"
  by (simp add: has_at_def GetComponent_def)

lemma has_at_range: "has_at T em e s \<Longrightarrow> s < length (mStorage (get_reg T (mRegistries em)))"
  by (simp add: has_at_def)

lemma lacks_Has: "lacks T em e \<Longrightarrow> HasComponent T em e = Some False"
  by (simp add: lacks_def HasComponent_def)

lemma dyn_dyn_horizontal_swap:
  assumes col1: "has_at T_Collision em e1 c1" and col2: "has_at T_Collision em e2 c2"
    and loc1: "has_at T_Location em e1 l1" and loc2: "has_at T_Location em e2 l2"
    and mov1: "has_at T_Movement em e1 m1" and mov2: "has_at T_Movement em e2 m2"
    and ne: "c1 \<noteq> c2" "l1 \<noteq> l2" "m1 \<noteq> m2"
    and dyn: "\<not> isStatic (deref T_Collision em c1)" "\<not> isStatic (deref T_Collision em c2)"
    and np: "e1 \<noteq> thePlayer" "e2 \<noteq> thePlayer"
    and axis: "horizontal overlap < vertical overlap"
  shows "\<exists>em'. ResolveCollision e1 e2 c1 c2 overlap em theCamera thePlayer = Some em'
     \<and> pos_x em' l1 = pos_x em l1 + (if box_x em c1 < box_x em c2 then - (horizontal overlap / 2) else horizontal overlap / 2)
     \<and> pos_x em' l2 = pos_x em l2 + (if box_x em c1 < box_x em c2 then horizontal overlap / 2 else - (horizontal overlap / 2))
     \<and> box_x em' c1 = box_x em c1 + (if box_x em c1 < box_x em c2 then - (horizontal overlap / 2) else horizontal overlap / 2)
     \<and> box_x em' c2 = box_x em c2 + (if box_x em c1 < box_x em c2 then horizontal overlap / 2 else - (horizontal overlap / 2))
     \<and> vel_x em' m1 = vel_x em m2 * bounceDamping
     \<and> vel_x em' m2 = vel_x em m1 * bounceDamping"
proof -
  note r = has_at_range [OF col1] has_at_range [OF col2] has_at_range [OF loc1]
    has_at_range [OF loc2] has_at_range [OF mov1] has_at_range [OF mov2]
  note h = has_at_Has [OF loc1] has_at_Has [OF loc2] has_at_Has [OF mov1] has_at_Has [OF mov2]
    has_at_Get [OF loc1] has_at_Get [OF loc2] has_at_Get [OF mov1] has_at_Get [OF mov2]
  show ?thesis
    using r h ne dyn np axis
    by (simp add: ResolveCollision_def ResolveDynamicHorizontal_def assert_that_def
        and_also_def Let_def deref_modify_same pos_x_def box_x_def vel_x_def
        add_pos_x_def add_box_x_def set_vel_x_def)
qed

section \<open>Destroying an entity\<close>













lemma entity_ok_modify_Score [simp]: "entity_ok (modify T_Score s f em) e = entity_ok em e"
  by (simp add: entity_ok_def reg_valid_def modify_def T_Score_def cs_valid_def)

lemma entity_ok_modify_Sprite [simp]: "entity_ok (modify T_Sprite s f em) e = entity_ok em e"
  by (simp add: entity_ok_def reg_valid_def modify_def T_Sprite_def cs_valid_def)












section \<open>Resolution of one pair\<close>


lemma separated_no_intersect:
  "rectRight b1 \<le> pt_x (topLeft b2) \<or> rectRight b2 \<le> pt_x (topLeft b1)
   \<or> rectBottom b1 \<le> pt_y (topLeft b2) \<or> rectBottom b2 \<le> pt_y (topLeft b1)
   \<longleftrightarrow> \<not> RectIntersect b1 b2"
  by (auto simp: RectIntersect_def Let_def)

lemma separated_penetration:
  "rectRight b1 \<le> pt_x (topLeft b2) \<or> rectRight b2 \<le> pt_x (topLeft b1)
   \<or> rectBottom b1 \<le> pt_y (topLeft b2) \<or> rectBottom b2 \<le> pt_y (topLeft b1)
   \<Longrightarrow> horizontal (CalculateOverlap b1 b2) \<le> 0 \<or> vertical (CalculateOverlap b1 b2) \<le> 0"
  by (auto simp: CalculateOverlap_def Let_def rectRight_def rectBottom_def)

lemma proper_boxes_penetration:
  assumes "0 < width b1" "0 < height b1" "0 < width b2" "0 < height b2"
  shows "(horizontal (CalculateOverlap b1 b2) \<le> 0 \<or> vertical (CalculateOverlap b1 b2) \<le> 0)
     \<longleftrightarrow> \<not> RectIntersect b1 b2"
  using assms
  by (auto simp: CalculateOverlap_def RectIntersect_def Let_def rectRight_def rectBottom_def
      min_def max_def split: if_splits)

text \<open>
  The positive extent matters for the second form: a box of width zero that lies inside
  another box has horizontal penetration zero and still passes the overlap test. Such a
  pair is neither separated nor touching.
\<close>

lemma zero_width_box_inside:
  "RectIntersect \<lparr>topLeft = \<lparr>pt_x = 5, pt_y = 0\<rparr>, width = 0, height = 10\<rparr>
                 \<lparr>topLeft = \<lparr>pt_x = 0, pt_y = 0\<rparr>, width = 10, height = 10\<rparr>
   \<and> horizontal (CalculateOverlap
         \<lparr>topLeft = \<lparr>pt_x = 5, pt_y = 0\<rparr>, width = 0, height = 10\<rparr>
         \<lparr>topLeft = \<lparr>pt_x = 0, pt_y = 0\<rparr>, width = 10, height = 10\<rparr>) = 0"
  by (simp add: RectIntersect_def CalculateOverlap_def rectRight_def rectBottom_def)

text \<open>
  C7. For a pair of bodies that are already separated or merely touching (on some axis
  the extent of one box ends at or before the start of the other), and just as well for
  a pair of boxes of positive width and height whose penetration, as \<open>CalculateOverlap\<close>
  computes it, is zero or negative on an axis: the penetration is zero or negative on
  some axis, and the pair iteration of the collision system leaves the whole state as it
  is, so that no position, no bounding box and no contact flag of either body changes.
\<close>

theorem separated_pair_untouched:
  assumes col1: "has_at T_Collision em entity1 c1" and col2: "has_at T_Collision em entity2 c2"
    and b1: "b1 = box_of em c1" and b2: "b2 = box_of em c2"
    and sep: "(rectRight b1 \<le> pt_x (topLeft b2) \<or> rectRight b2 \<le> pt_x (topLeft b1)
         \<or> rectBottom b1 \<le> pt_y (topLeft b2) \<or> rectBottom b2 \<le> pt_y (topLeft b1))
       \<or> (0 < width b1 \<and> 0 < height b1 \<and> 0 < width b2 \<and> 0 < height b2
           \<and> (horizontal (CalculateOverlap b1 b2) \<le> 0 \<or> vertical (CalculateOverlap b1 b2) \<le> 0))"
  shows "(horizontal (CalculateOverlap b1 b2) \<le> 0 \<or> vertical (CalculateOverlap b1 b2) \<le> 0)
     \<and> CollisionSystem_pair theCamera thePlayer entity1 entity2 (em, soundManager)
         = Some (em, soundManager)"
proof -
  from sep have no: "\<not> RectIntersect b1 b2"
  proof
    assume "rectRight b1 \<le> pt_x (topLeft b2) \<or> rectRight b2 \<le> pt_x (topLeft b1)
         \<or> rectBottom b1 \<le> pt_y (topLeft b2) \<or> rectBottom b2 \<le> pt_y (topLeft b1)"
    then show ?thesis using separated_no_intersect [of b1 b2] by blast
  next
    assume "0 < width b1 \<and> 0 < height b1 \<and> 0 < width b2 \<and> 0 < height b2
           \<and> (horizontal (CalculateOverlap b1 b2) \<le> 0 \<or> vertical (CalculateOverlap b1 b2) \<le> 0)"
    then show ?thesis using proper_boxes_penetration [of b1 b2] by blast
  qed
  then have edges: "rectRight b1 \<le> pt_x (topLeft b2) \<or> rectRight b2 \<le> pt_x (topLeft b1)
         \<or> rectBottom b1 \<le> pt_y (topLeft b2) \<or> rectBottom b2 \<le> pt_y (topLeft b1)"
    using separated_no_intersect [of b1 b2] by blast
  have "CollisionSystem_pair theCamera thePlayer entity1 entity2 (em, soundManager)
         = Some (em, soundManager)"
    using has_at_Get [OF col1] has_at_Get [OF col2] no b1 b2
    by (simp add: CollisionSystem_pair_def box_of_def)
  with separated_penetration [OF edges] show ?thesis by simp
qed

lemma static_dynamic_vertical_landing:
  assumes colD: "has_at T_Collision em eD cD" and colS: "has_at T_Collision em eS cS"
    and ne: "cD \<noteq> cS"
    and dyn: "\<not> isStatic (deref T_Collision em cD)" and sta: "isStatic (deref T_Collision em cS)"
    and order: "(e1, c1, e2, c2) = (eD, cD, eS, cS) \<or> (e1, c1, e2, c2) = (eS, cS, eD, cD)"
    and loc: "has_at T_Location em eD l"
    and axis: "\<not> horizontal overlap < vertical overlap"
    and above: "\<not> box_y em cD > box_y em cS"
    and mov: "has_at T_Movement em eD m \<or> lacks T_Movement em eD"
    and cam: "eD \<noteq> thePlayer \<or> lacks T_Movement em eD
       \<or> wasStandingLast (deref T_Collision em cD) \<or> has_at T_CameraShake em theCamera sh"
  shows "\<exists>em'. ResolveCollision e1 e2 c1 c2 overlap em theCamera thePlayer = Some em'
     \<and> pos_y em' l = pos_y em l - vertical overlap
     \<and> pos_x em' l = pos_x em l
     \<and> (\<forall>l'. l' \<noteq> l \<longrightarrow> deref T_Location em' l' = deref T_Location em l')
     \<and> box_y em' cD = box_y em cD - vertical overlap
     \<and> box_x em' cD = box_x em cD
     \<and> (\<forall>c. c \<noteq> cD \<longrightarrow> currentBoundingBox (deref T_Collision em' c)
                            = currentBoundingBox (deref T_Collision em c))
     \<and> collidedBottom (deref T_Collision em' cD)
     \<and> collidedTop (deref T_Collision em' cS)
     \<and> (eD = thePlayer \<and> has_at T_Movement em eD m \<and> vel_y em m > 0 \<longrightarrow> vel_y em' m = 0)"
proof -
  note r = has_at_range [OF colD] has_at_range [OF colS] has_at_range [OF loc]
  note h = has_at_Has [OF loc] has_at_Get [OF loc]
  note defs = ResolveCollision_def ResolveStaticVertical_def assert_that_def
        Let_def deref_modify_same pos_x_def pos_y_def box_x_def box_y_def vel_y_def vel_x_def
        add_pos_y_def add_box_y_def set_vel_y_def set_vel_x_def
  from mov show ?thesis
  proof
    assume nm: "lacks T_Movement em eD"
    then have "\<not> has_at T_Movement em eD m" by (auto simp: lacks_def has_at_def)
    with order show ?thesis
      using r h ne dyn sta axis above lacks_Has [OF nm]
      by (auto simp: defs)
  next
    assume hm: "has_at T_Movement em eD m"
    note rm = has_at_range [OF hm] has_at_Has [OF hm] has_at_Get [OF hm]
    from hm have "\<not> lacks T_Movement em eD" by (auto simp: lacks_def has_at_def)
    with cam consider (other) "eD \<noteq> thePlayer"
      | (stood) "wasStandingLast (deref T_Collision em cD)"
      | (shake) "has_at T_CameraShake em theCamera sh" by blast
    then show ?thesis
    proof cases
      case other
      with order show ?thesis
        using r h rm ne dyn sta axis above hm
        by (auto simp: defs)
    next
      case stood
      with order show ?thesis
        using r h rm ne dyn sta axis above hm
        by (auto simp: defs)
    next
      case shake
      with order show ?thesis
        using r h rm ne dyn sta axis above hm has_at_Get [OF shake] has_at_range [OF shake]
        by (auto simp: defs)
    qed
  qed
qed

section \<open>The claims about collision resolution\<close>

lemma list_update_numeral:
  "(x # xs)[numeral k := v] = x # xs[pred_numeral k := v]"
  by (simp add: numeral_eq_Suc)

lemma row_absent: "replicate NUM_COMPONENTS x = [x, x, x, x, x, x, x, x, x, x, x, x]"
  by (simp add: NUM_COMPONENTS_def numeral_eq_Suc)

lemmas build_defs = spawn_body_def add_velocity_def CreateEntity_def AddComponent_def em_empty_def
      ValidEntity_def cs_store_def cs_empty_def Let_def T_Location_def T_Sprite_def T_Collision_def
      T_Movement_def T_Input_def T_Score_def T_CameraShake_def
      row_absent list_update_numeral
      INVALID_COMPONENT_INDEX_def SIZE_MAX_def size_t_inc_def 
      CollisionComponent_of_def SpriteComponent_default_def Rect_default_def
      InputComponent_default_def ScoreComponent_default_def CameraShake_default_def

lemmas collect_defs = CollisionSystem_collect_def
      HasComponent_def GetComponent_def GetEntityName_def cs_valid_def modify_def deref_def
      clearCollisions_def point_add_def

lemma has_at_valid: "has_at T em e s \<Longrightarrow> ValidEntity em e"
  by (simp add: has_at_def)


text \<open>
  C3. A static body and a dynamic body, in either argument order, resolved on the
  vertical axis with the dynamic body above the static one (its box does not start
  below): only the dynamic body is moved, up by the full vertical penetration (its
  position and its box, not sideways; every other position and every other box stay);
  the dynamic body gets \<open>collidedBottom\<close> and the static body \<open>collidedTop\<close>; and when the
  dynamic body is the player and moves downward, its vertical velocity becomes 0.
  The dynamic body holds a position, as the assertion at the head of the function
  demands, and when it is the player and holds a velocity, the camera holds a shake
  component unless the player was standing in the last frame. The scenario of the specification (static box at (0,0,32,32), 4 pixels of
  vertical penetration) is the instance proved after the theorem.
\<close>

theorem landing_on_static:
  assumes "has_at T_Collision em eD cD" and "has_at T_Collision em eS cS"
    and "cD \<noteq> cS"
    and "\<not> isStatic (deref T_Collision em cD)" and "isStatic (deref T_Collision em cS)"
    and "(e1, c1, e2, c2) = (eD, cD, eS, cS) \<or> (e1, c1, e2, c2) = (eS, cS, eD, cD)"
    and "has_at T_Location em eD l"
    and "\<not> horizontal overlap < vertical overlap"
    and "\<not> box_y em cD > box_y em cS"
    and "has_at T_Movement em eD m \<or> lacks T_Movement em eD"
    and "eD \<noteq> thePlayer \<or> lacks T_Movement em eD
       \<or> wasStandingLast (deref T_Collision em cD) \<or> has_at T_CameraShake em theCamera sh"
  shows "\<exists>em'. ResolveCollision e1 e2 c1 c2 overlap em theCamera thePlayer = Some em'
     \<and> pos_y em' l = pos_y em l - vertical overlap
     \<and> pos_x em' l = pos_x em l
     \<and> (\<forall>l'. l' \<noteq> l \<longrightarrow> deref T_Location em' l' = deref T_Location em l')
     \<and> box_y em' cD = box_y em cD - vertical overlap
     \<and> box_x em' cD = box_x em cD
     \<and> (\<forall>c. c \<noteq> cD \<longrightarrow> currentBoundingBox (deref T_Collision em' c)
                            = currentBoundingBox (deref T_Collision em c))
     \<and> collidedBottom (deref T_Collision em' cD)
     \<and> collidedTop (deref T_Collision em' cS)
     \<and> (eD = thePlayer \<and> has_at T_Movement em eD m \<and> vel_y em m > 0 \<longrightarrow> vel_y em' m = 0)"
  using assms by (rule static_dynamic_vertical_landing)

text \<open>
  C4. Two dynamic bodies, neither of them the player, both with a position and a
  velocity, whose boxes overlap by 10 horizontally and by more vertically, and which move
  toward each other at 100 and -100 (the left one to the right): the left body and its box
  move 5 to the left, the right body and its box 5 to the right, and the horizontal
  velocities are exchanged and scaled by 0.7, to -70 for the left and 70 for the right body.
\<close>

theorem dynamic_pair_bounce:
  assumes col1: "has_at T_Collision em e1 c1" and col2: "has_at T_Collision em e2 c2"
    and loc1: "has_at T_Location em e1 l1" and loc2: "has_at T_Location em e2 l2"
    and mov1: "has_at T_Movement em e1 m1" and mov2: "has_at T_Movement em e2 m2"
    and ne: "c1 \<noteq> c2" "l1 \<noteq> l2" "m1 \<noteq> m2"
    and dyn: "\<not> isStatic (deref T_Collision em c1)" "\<not> isStatic (deref T_Collision em c2)"
    and np: "e1 \<noteq> thePlayer" "e2 \<noteq> thePlayer"
    and pen: "horizontal overlap = 10" and axis: "10 < vertical overlap"
    and v1: "vel_x em m1 = (if box_x em c1 < box_x em c2 then 100 else - 100)"
    and v2: "vel_x em m2 = - vel_x em m1"
  shows "\<exists>em'. ResolveCollision e1 e2 c1 c2 overlap em theCamera thePlayer = Some em'
     \<and> pos_x em' l1 = pos_x em l1 + (if box_x em c1 < box_x em c2 then - 5 else 5)
     \<and> pos_x em' l2 = pos_x em l2 + (if box_x em c1 < box_x em c2 then 5 else - 5)
     \<and> box_x em' c1 = box_x em c1 + (if box_x em c1 < box_x em c2 then - 5 else 5)
     \<and> box_x em' c2 = box_x em c2 + (if box_x em c1 < box_x em c2 then 5 else - 5)
     \<and> vel_x em' m1 = (if box_x em c1 < box_x em c2 then - 70 else 70)
     \<and> vel_x em' m2 = (if box_x em c1 < box_x em c2 then 70 else - 70)"
proof -
  from pen axis have a: "horizontal overlap < vertical overlap" by simp
  from dyn_dyn_horizontal_swap [OF col1 col2 loc1 loc2 mov1 mov2 ne dyn np a,
      of theCamera]
  show ?thesis using pen v1 v2 by (auto simp: bounceDamping_def)
qed

lemma dyn_dyn_vertical_with_input:
  assumes col1: "has_at T_Collision em e1 c1" and col2: "has_at T_Collision em e2 c2"
    and loc1: "has_at T_Location em e1 l1" and loc2: "has_at T_Location em e2 l2"
    and mov1: "has_at T_Movement em e1 m1" and mov2: "has_at T_Movement em e2 m2"
    and ne: "c1 \<noteq> c2" "l1 \<noteq> l2"
    and dyn: "\<not> isStatic (deref T_Collision em c1)" "\<not> isStatic (deref T_Collision em c2)"
    and axis: "\<not> horizontal overlap < vertical overlap"
    and inp: "HasComponent T_Input em e1 = Some True \<or> HasComponent T_Input em e2 = Some True"
  shows "\<exists>em'. ResolveCollision e1 e2 c1 c2 overlap em theCamera thePlayer = Some em'
     \<and> (\<forall>m. deref T_Movement em' m = deref T_Movement em m)"
proof -
  note r = has_at_range [OF col1] has_at_range [OF col2] has_at_range [OF loc1]
    has_at_range [OF loc2]
  note h = has_at_Has [OF loc1] has_at_Has [OF loc2] has_at_Has [OF mov1] has_at_Has [OF mov2]
    has_at_Get [OF loc1] has_at_Get [OF loc2] has_at_Get [OF mov1] has_at_Get [OF mov2]
  from has_at_valid [OF col1] obtain i1 where i1: "HasComponent T_Input em e1 = Some i1"
    by (simp add: HasComponent_def)
  from has_at_valid [OF col2] obtain i2 where i2: "HasComponent T_Input em e2 = Some i2"
    by (simp add: HasComponent_def)
  from inp i1 i2 have "i1 \<or> i2" by auto
  then show ?thesis
    using r h ne dyn axis i1 i2
    by (auto simp: ResolveCollision_def ResolveDynamicVertical_def assert_that_def
        and_also_def Let_def)
qed

lemma dyn_dyn_horizontal_reflect:
  assumes colP: "has_at T_Collision em eP cP" and colN: "has_at T_Collision em eN cN"
    and locP: "has_at T_Location em eP lP" and locN: "has_at T_Location em eN lN"
    and movP: "has_at T_Movement em eP mP" and movN: "has_at T_Movement em eN mN"
    and ne: "cP \<noteq> cN" "lP \<noteq> lN" "mP \<noteq> mN"
    and dyn: "\<not> isStatic (deref T_Collision em cP)" "\<not> isStatic (deref T_Collision em cN)"
    and pl: "eP = thePlayer" "eN \<noteq> thePlayer"
    and order: "(e1, c1, e2, c2) = (eP, cP, eN, cN) \<or> (e1, c1, e2, c2) = (eN, cN, eP, cP)"
    and axis: "horizontal overlap < vertical overlap"
  shows "\<exists>em'. ResolveCollision e1 e2 c1 c2 overlap em theCamera thePlayer = Some em'
     \<and> vel_x em' mN = - vel_x em mN * bounceDamping
     \<and> vel_x em' mP = vel_x em mP"
proof -
  note r = has_at_range [OF colP] has_at_range [OF colN] has_at_range [OF locP]
    has_at_range [OF locN] has_at_range [OF movP] has_at_range [OF movN]
  note h = has_at_Has [OF locP] has_at_Has [OF locN] has_at_Has [OF movP] has_at_Has [OF movN]
    has_at_Get [OF locP] has_at_Get [OF locN] has_at_Get [OF movP] has_at_Get [OF movN]
  from order show ?thesis
    using r h ne dyn pl axis
    by (auto simp: ResolveCollision_def ResolveDynamicHorizontal_def assert_that_def
        and_also_def Let_def deref_modify_same vel_x_def set_vel_x_def)
qed



lemma type_ids_set: "set [0..<NUM_COMPONENTS] = {0, 1, 2, 3, 4, 5, 6, 7, 8, 9, 10, 11}"
  by (simp add: type_ids)

lemmas read_defs = has_at_def entity_ok_def reg_valid_def type_ids_set box_of_def box_x_def
  box_y_def pos_x_def pos_y_def vel_x_def vel_y_def

lemma demo_facts:
  "\<exists>em0 em. demo_spawned = Some em0
     \<and> for_each CollisionSystem_collect (mEntities em0) (em0, 0, 0, [])
          = Some (em, 3, 2, [1, 2, 4, 5, 6, 7, 8])
     \<and> (ValidEntity em0 0 \<and> has_at T_Collision em0 0 0 \<and> has_at T_Location em0 0 0)
     \<and> (has_at T_Collision em 1 1 \<and> has_at T_Collision em 2 2
        \<and> \<not> isStatic (deref T_Collision em 2) \<and> isStatic (deref T_Collision em 1)
        \<and> has_at T_Location em 2 2 \<and> has_at T_Movement em 2 0
        \<and> wasStandingLast (deref T_Collision em 2)
        \<and> box_of em 1 = \<lparr>topLeft = \<lparr>pt_x = 0, pt_y = 0\<rparr>, width = 32, height = 32\<rparr>
        \<and> box_of em 2 = \<lparr>topLeft = \<lparr>pt_x = 0, pt_y = - 28\<rparr>, width = 32, height = 32\<rparr>
        \<and> box_y em 2 = - 28 \<and> box_y em 1 = 0 \<and> pos_y em 2 = - 28 \<and> vel_y em 0 = 200)
     \<and> (has_at T_Collision em 4 3 \<and> has_at T_Collision em 5 4
        \<and> has_at T_Location em 4 3 \<and> has_at T_Location em 5 4
        \<and> has_at T_Movement em 4 1 \<and> has_at T_Movement em 5 2
        \<and> \<not> isStatic (deref T_Collision em 3) \<and> \<not> isStatic (deref T_Collision em 4)
        \<and> box_of em 3 = \<lparr>topLeft = \<lparr>pt_x = 100, pt_y = 0\<rparr>, width = 32, height = 32\<rparr>
        \<and> box_of em 4 = \<lparr>topLeft = \<lparr>pt_x = 122, pt_y = 0\<rparr>, width = 32, height = 32\<rparr>
        \<and> box_x em 3 = 100 \<and> box_x em 4 = 122 \<and> pos_x em 3 = 100 \<and> pos_x em 4 = 122
        \<and> vel_x em 1 = 100 \<and> vel_x em 2 = - 100)
     \<and> (has_at T_Collision em 6 5 \<and> has_at T_Score em 2 0 \<and> has_at T_Sprite em 6 5
        \<and> entity_ok em 6 \<and> GetEntityName em 6 = Some ''star''
        \<and> \<not> isStatic (deref T_Collision em 5)
        \<and> box_of em 5 = \<lparr>topLeft = \<lparr>pt_x = 16, pt_y = - 44\<rparr>, width = 32, height = 32\<rparr>
        \<and> mEntityToComponentIdx em ! 6 ! type_id T_Location = 5
        \<and> mEntityToComponentIdx em ! 6 ! type_id T_Score = INVALID_COMPONENT_INDEX
        \<and> score (deref T_Score em 0) = 0
        \<and> deref T_Location em 2 = \<lparr>position = \<lparr>pt_x = 0, pt_y = - 28\<rparr>\<rparr>)
     \<and> (has_at T_Collision em 7 6 \<and> has_at T_Location em 7 6 \<and> has_at T_Movement em 7 4
        \<and> \<not> isStatic (deref T_Collision em 6)
        \<and> box_of em 6 = \<lparr>topLeft = \<lparr>pt_x = 0, pt_y = - 56\<rparr>, width = 32, height = 32\<rparr>
        \<and> HasComponent T_Input em 2 = Some True \<and> vel_y em 4 = 50)
     \<and> (has_at T_Collision em 8 7
        \<and> box_of em 7 = \<lparr>topLeft = \<lparr>pt_x = 154, pt_y = 0\<rparr>, width = 32, height = 32\<rparr>)"
  by (simp add: demo_spawned_def build_defs collect_defs read_defs)

lemma demo_em_eq:
  assumes a: "demo_spawned = Some em0"
    and b: "for_each CollisionSystem_collect (mEntities em0) (em0, 0, 0, []) = Some (em, x, y, z)"
  shows "demo_start = em0 \<and> demo_em = em"
  unfolding demo_start_def demo_em_def demo_collected_def a by (simp add: b)

theorem landing_on_static_witness:
  "has_at T_Collision demo_em 2 2 \<and> has_at T_Collision demo_em 1 1
   \<and> \<not> isStatic (deref T_Collision demo_em 2) \<and> isStatic (deref T_Collision demo_em 1)
   \<and> has_at T_Location demo_em 2 2 \<and> has_at T_Movement demo_em 2 0
   \<and> wasStandingLast (deref T_Collision demo_em 2)
   \<and> box_of demo_em 1 = \<lparr>topLeft = \<lparr>pt_x = 0, pt_y = 0\<rparr>, width = 32, height = 32\<rparr>
   \<and> box_of demo_em 2 = \<lparr>topLeft = \<lparr>pt_x = 0, pt_y = - 28\<rparr>, width = 32, height = 32\<rparr>
   \<and> CalculateOverlap (box_of demo_em 1) (box_of demo_em 2) = \<lparr>horizontal = 32, vertical = 4\<rparr>
   \<and> pos_y demo_em 2 = - 28 \<and> vel_y demo_em 0 = 200
   \<and> (\<exists>em'. ResolveCollision 1 2 1 2 (CalculateOverlap (box_of demo_em 1) (box_of demo_em 2))
                demo_em 3 2 = Some em'
         \<and> pos_y em' 2 = - 32 \<and> box_y em' 2 = - 32
         \<and> currentBoundingBox (deref T_Collision em' 1) = box_of demo_em 1
         \<and> collidedBottom (deref T_Collision em' 2) \<and> collidedTop (deref T_Collision em' 1)
         \<and> vel_y em' 0 = 0)"
proof -
  from demo_facts obtain em0 em where
    sp: "demo_spawned = Some em0"
    and co: "for_each CollisionSystem_collect (mEntities em0) (em0, 0, 0, [])
          = Some (em, 3, 2, [1, 2, 4, 5, 6, 7, 8])"
    and f: "has_at T_Collision em 1 1" "has_at T_Collision em 2 2"
        "\<not> isStatic (deref T_Collision em 2)" "isStatic (deref T_Collision em 1)"
        "has_at T_Location em 2 2" "has_at T_Movement em 2 0"
        "wasStandingLast (deref T_Collision em 2)"
        "box_of em 1 = \<lparr>topLeft = \<lparr>pt_x = 0, pt_y = 0\<rparr>, width = 32, height = 32\<rparr>"
        "box_of em 2 = \<lparr>topLeft = \<lparr>pt_x = 0, pt_y = - 28\<rparr>, width = 32, height = 32\<rparr>"
        "box_y em 2 = - 28" "box_y em 1 = 0" "pos_y em 2 = - 28" "vel_y em 0 = 200"
    by blast
  from demo_em_eq [OF sp co] have e: "demo_em = em" by simp
  have ov: "CalculateOverlap (box_of em 1) (box_of em 2) = \<lparr>horizontal = 32, vertical = 4\<rparr>"
    using f by (simp add: CalculateOverlap_def)
  have "\<exists>em'. ResolveCollision 1 2 1 2 (CalculateOverlap (box_of em 1) (box_of em 2))
                em 3 2 = Some em'
         \<and> pos_y em' 2 = - 32 \<and> box_y em' 2 = - 32
         \<and> currentBoundingBox (deref T_Collision em' 1) = box_of em 1
         \<and> collidedBottom (deref T_Collision em' 2) \<and> collidedTop (deref T_Collision em' 1)
         \<and> vel_y em' 0 = 0"
    using landing_on_static [where em = em and eD = 2 and cD = 2 and eS = 1 and cS = 1
        and ?e1.0 = 1 and ?c1.0 = 1 and ?e2.0 = 2 and ?c2.0 = 2 and l = 2 and m = 0
        and theCamera = 3 and thePlayer = 2 and sh = 0
        and overlap = "CalculateOverlap (box_of em 1) (box_of em 2)"]
      f ov
    by (auto simp: box_of_def)
  with f ov show ?thesis unfolding e by simp
qed

theorem dynamic_pair_bounce_witness:
  "has_at T_Collision demo_em 4 3 \<and> has_at T_Collision demo_em 5 4
   \<and> has_at T_Location demo_em 4 3 \<and> has_at T_Location demo_em 5 4
   \<and> has_at T_Movement demo_em 4 1 \<and> has_at T_Movement demo_em 5 2
   \<and> \<not> isStatic (deref T_Collision demo_em 3) \<and> \<not> isStatic (deref T_Collision demo_em 4)
   \<and> box_of demo_em 3 = \<lparr>topLeft = \<lparr>pt_x = 100, pt_y = 0\<rparr>, width = 32, height = 32\<rparr>
   \<and> box_of demo_em 4 = \<lparr>topLeft = \<lparr>pt_x = 122, pt_y = 0\<rparr>, width = 32, height = 32\<rparr>
   \<and> CalculateOverlap (box_of demo_em 3) (box_of demo_em 4) = \<lparr>horizontal = 10, vertical = 32\<rparr>
   \<and> pos_x demo_em 3 = 100 \<and> pos_x demo_em 4 = 122
   \<and> vel_x demo_em 1 = 100 \<and> vel_x demo_em 2 = - 100
   \<and> (\<exists>em'. ResolveCollision 4 5 3 4 (CalculateOverlap (box_of demo_em 3) (box_of demo_em 4))
                demo_em 3 2 = Some em'
         \<and> pos_x em' 3 = 95 \<and> pos_x em' 4 = 127 \<and> box_x em' 3 = 95 \<and> box_x em' 4 = 127
         \<and> vel_x em' 1 = - 70 \<and> vel_x em' 2 = 70)"
proof -
  from demo_facts obtain em0 em where
    sp: "demo_spawned = Some em0"
    and co: "for_each CollisionSystem_collect (mEntities em0) (em0, 0, 0, [])
          = Some (em, 3, 2, [1, 2, 4, 5, 6, 7, 8])"
    and f: "has_at T_Collision em 4 3" "has_at T_Collision em 5 4"
        "has_at T_Location em 4 3" "has_at T_Location em 5 4"
        "has_at T_Movement em 4 1" "has_at T_Movement em 5 2"
        "\<not> isStatic (deref T_Collision em 3)" "\<not> isStatic (deref T_Collision em 4)"
        "box_of em 3 = \<lparr>topLeft = \<lparr>pt_x = 100, pt_y = 0\<rparr>, width = 32, height = 32\<rparr>"
        "box_of em 4 = \<lparr>topLeft = \<lparr>pt_x = 122, pt_y = 0\<rparr>, width = 32, height = 32\<rparr>"
        "box_x em 3 = 100" "box_x em 4 = 122" "pos_x em 3 = 100" "pos_x em 4 = 122"
        "vel_x em 1 = 100" "vel_x em 2 = - 100"
    by blast
  from demo_em_eq [OF sp co] have e: "demo_em = em" by simp
  have ov: "CalculateOverlap (box_of em 3) (box_of em 4) = \<lparr>horizontal = 10, vertical = 32\<rparr>"
    using f by (simp add: CalculateOverlap_def)
  have "\<exists>em'. ResolveCollision 4 5 3 4 (CalculateOverlap (box_of em 3) (box_of em 4))
                em 3 2 = Some em'
         \<and> pos_x em' 3 = 95 \<and> pos_x em' 4 = 127 \<and> box_x em' 3 = 95 \<and> box_x em' 4 = 127
         \<and> vel_x em' 1 = - 70 \<and> vel_x em' 2 = 70"
    using dynamic_pair_bounce [where em = em and ?e1.0 = 4 and ?e2.0 = 5 and ?c1.0 = 3
        and ?c2.0 = 4 and ?l1.0 = 3 and ?l2.0 = 4 and ?m1.0 = 1 and ?m2.0 = 2
        and thePlayer = 2 and theCamera = 3
        and overlap = "CalculateOverlap (box_of em 3) (box_of em 4)"]
      f ov
    by auto
  with f ov show ?thesis unfolding e by simp
qed




theorem separated_pair_untouched_witness:
  "has_at T_Collision demo_em 5 4 \<and> has_at T_Collision demo_em 8 7
   \<and> box_of demo_em 4 = \<lparr>topLeft = \<lparr>pt_x = 122, pt_y = 0\<rparr>, width = 32, height = 32\<rparr>
   \<and> box_of demo_em 7 = \<lparr>topLeft = \<lparr>pt_x = 154, pt_y = 0\<rparr>, width = 32, height = 32\<rparr>
   \<and> rectRight (box_of demo_em 4) = pt_x (topLeft (box_of demo_em 7))
   \<and> CalculateOverlap (box_of demo_em 4) (box_of demo_em 7) = \<lparr>horizontal = 0, vertical = 32\<rparr>
   \<and> CollisionSystem_pair 3 2 5 8 (demo_em, demo_sound) = Some (demo_em, demo_sound)"
proof -
  from demo_facts obtain em0 em where
    sp: "demo_spawned = Some em0"
    and co: "for_each CollisionSystem_collect (mEntities em0) (em0, 0, 0, [])
          = Some (em, 3, 2, [1, 2, 4, 5, 6, 7, 8])"
    and f: "has_at T_Collision em 5 4" "has_at T_Collision em 8 7"
        "box_of em 4 = \<lparr>topLeft = \<lparr>pt_x = 122, pt_y = 0\<rparr>, width = 32, height = 32\<rparr>"
        "box_of em 7 = \<lparr>topLeft = \<lparr>pt_x = 154, pt_y = 0\<rparr>, width = 32, height = 32\<rparr>"
    by blast
  from demo_em_eq [OF sp co] have e: "demo_em = em" by simp
  have touch: "rectRight (box_of em 4) = pt_x (topLeft (box_of em 7))"
    using f by (simp add: rectRight_def)
  have ov: "CalculateOverlap (box_of em 4) (box_of em 7) = \<lparr>horizontal = 0, vertical = 32\<rparr>"
    using f by (simp add: CalculateOverlap_def)
  have "CollisionSystem_pair 3 2 5 8 (em, demo_sound) = Some (em, demo_sound)"
    using separated_pair_untouched [where em = em and ?entity1.0 = 5 and ?entity2.0 = 8
        and ?c1.0 = 4 and ?c2.0 = 7 and ?b1.0 = "box_of em 4" and ?b2.0 = "box_of em 7"
        and theCamera = 3 and thePlayer = 2 and soundManager = demo_sound]
      f(1,2) touch
    by simp
  with f touch ov show ?thesis unfolding e by simp
qed

theorem RemoveEntity_invalid_noop_witness:
  "\<not> ValidEntity em_empty 7 \<and> RemoveEntity em_empty 7 = Some em_empty
   \<and> RemoveEntity (snd (CreateEntity em_empty ''A'')) 0 = Some demo_destroyed
   \<and> \<not> ValidEntity demo_destroyed 0
   \<and> RemoveEntity demo_destroyed 0 = Some demo_destroyed"
proof -
  have a: "\<not> ValidEntity em_empty 7" by (simp add: ValidEntity_def em_empty_def)
  obtain a0 em1 where cr: "CreateEntity em_empty ''A'' = (a0, em1)"
    by (cases "CreateEntity em_empty ''A''")
  then have a0: "a0 = 0" by (auto simp: CreateEntity_def em_empty_def)
  from CreateEntity_fresh [OF em_inv_empty cr] a0
  have v: "ValidEntity em1 0"
    and row: "mEntityToComponentIdx em1 ! 0 = replicate NUM_COMPONENTS INVALID_COMPONENT_INDEX"
    by simp_all
  from RemoveEntity_fresh [OF v row] cr
  have rm: "RemoveEntity (snd (CreateEntity em_empty ''A'')) 0 =
           Some (em1\<lparr>mEntities := (mEntities em1)
                          [0 := (mEntities em1 ! 0)\<lparr>ent_name := [], ent_id := 0\<rparr>],
                       mValidIds := (mValidIds em1)[0 := False],
                       mFreeIds := mFreeIds em1 @ [0]\<rparr>)"
    by simp
  then have d: "RemoveEntity (snd (CreateEntity em_empty ''A'')) 0 = Some demo_destroyed"
    by (simp add: demo_destroyed_def)
  from v have "0 < length (mValidIds em1)" by (simp add: ValidEntity_def)
  with rm have b: "\<not> ValidEntity demo_destroyed 0"
    by (simp add: demo_destroyed_def ValidEntity_def)
  from a b d RemoveEntity_invalid_noop [OF a] RemoveEntity_invalid_noop [OF b]
  show ?thesis by simp
qed








text \<open>
  C2, the code at an input where it departs from the claim. The player (entity 2, with an
  input component) and a dynamic crate (entity 7) overlap by 4 vertically and by 32
  horizontally, both have a velocity, and the crate falls at 50. The pair is resolved on
  the vertical axis; the crate's vertical velocity is 50 afterwards, where a reflection
  with the damping factor would give -35.
\<close>

theorem vertical_pair_with_player_not_reflected:
  "has_at T_Movement demo_em 2 0 \<and> has_at T_Movement demo_em 7 4
   \<and> HasComponent T_Input demo_em 2 = Some True
   \<and> \<not> isStatic (deref T_Collision demo_em 2) \<and> \<not> isStatic (deref T_Collision demo_em 6)
   \<and> CalculateOverlap (box_of demo_em 2) (box_of demo_em 6) = \<lparr>horizontal = 32, vertical = 4\<rparr>
   \<and> vel_y demo_em 4 = 50
   \<and> vel_y_after (ResolveCollision 2 7 2 6
         (CalculateOverlap (box_of demo_em 2) (box_of demo_em 6)) demo_em 3 2) 4 = Some 50
   \<and> - 50 * bounceDamping = - 35"
proof -
  from demo_facts obtain em0 em where
    sp: "demo_spawned = Some em0"
    and co: "for_each CollisionSystem_collect (mEntities em0) (em0, 0, 0, [])
          = Some (em, 3, 2, [1, 2, 4, 5, 6, 7, 8])"
    and col: "has_at T_Collision em 2 2" "has_at T_Collision em 7 6"
    and loc: "has_at T_Location em 2 2" "has_at T_Location em 7 6"
    and mov: "has_at T_Movement em 2 0" "has_at T_Movement em 7 4"
    and dyn: "\<not> isStatic (deref T_Collision em 2)" "\<not> isStatic (deref T_Collision em 6)"
    and g: "box_of em 2 = \<lparr>topLeft = \<lparr>pt_x = 0, pt_y = - 28\<rparr>, width = 32, height = 32\<rparr>"
        "box_of em 6 = \<lparr>topLeft = \<lparr>pt_x = 0, pt_y = - 56\<rparr>, width = 32, height = 32\<rparr>"
    and inp: "HasComponent T_Input em 2 = Some True"
    and v: "vel_y em 4 = 50"
    by blast
  from demo_em_eq [OF sp co] have e: "demo_em = em" by simp
  have ov: "CalculateOverlap (box_of em 2) (box_of em 6) = \<lparr>horizontal = 32, vertical = 4\<rparr>"
    using g by (simp add: CalculateOverlap_def)
  have axis: "\<not> horizontal (CalculateOverlap (box_of em 2) (box_of em 6))
                < vertical (CalculateOverlap (box_of em 2) (box_of em 6))"
    by (simp add: ov)
  have ne: "(2::nat) \<noteq> 6" by simp
  from inp have inp': "HasComponent T_Input em 2 = Some True \<or> HasComponent T_Input em 7 = Some True"
    by simp
  from dyn_dyn_vertical_with_input [OF col loc mov ne ne dyn axis inp', of 3 2]
  obtain em' where r: "ResolveCollision 2 7 2 6
         (CalculateOverlap (box_of em 2) (box_of em 6)) em 3 2 = Some em'"
    and same: "\<forall>m. deref T_Movement em' m = deref T_Movement em m" by blast
  from same v have "vel_y em' 4 = 50" by (simp add: vel_y_def)
  with r have after: "vel_y_after (ResolveCollision 2 7 2 6
         (CalculateOverlap (box_of em 2) (box_of em 6)) em 3 2) 4 = Some 50"
    by (simp add: vel_y_after_def)
  have "- 50 * bounceDamping = - 35" by (simp add: bounceDamping_def)
  with mov inp dyn ov v after show ?thesis unfolding e by simp
qed

theorem vertical_pair_with_player_not_reflected_witness:
  "vel_y demo_em 4 = 50
   \<and> vel_y_after (ResolveCollision 2 7 2 6
         (CalculateOverlap (box_of demo_em 2) (box_of demo_em 6)) demo_em 3 2) 4 = Some 50"
  using vertical_pair_with_player_not_reflected by blast

section \<open>Preservation of the manager invariant\<close>

text \<open>
  The invariant holds for the fresh manager (\<open>em_inv_empty\<close>) and is kept by
  \<open>CreateEntity\<close> (\<open>CreateEntity_fresh\<close>), by \<open>RemoveEntity\<close> and by \<open>AddComponent\<close>.
\<close>

lemma nth_update_beyond: "\<not> i < length xs \<Longrightarrow> xs[t := v] ! i = xs ! i"
  by (cases "i = t") (simp_all add: list_update_beyond not_less)

lemma RemoveEntity_loop_idx:
  "RemoveEntity_loop ts e em = Some em' \<Longrightarrow>
   mValidIds em' = mValidIds em \<and> mEntities em' = mEntities em \<and> mFreeIds em' = mFreeIds em
   \<and> length (mEntityToComponentIdx em') = length (mEntityToComponentIdx em)
   \<and> (\<forall>i. i \<noteq> e \<longrightarrow> mEntityToComponentIdx em' ! i = mEntityToComponentIdx em ! i)
   \<and> length (mEntityToComponentIdx em' ! e) = length (mEntityToComponentIdx em ! e)
   \<and> (\<forall>t. mEntityToComponentIdx em' ! e ! t =
          (if t \<in> set ts \<and> e < length (mEntityToComponentIdx em)
              \<and> t < length (mEntityToComponentIdx em ! e)
           then INVALID_COMPONENT_INDEX else mEntityToComponentIdx em ! e ! t))"
proof (induction ts arbitrary: em)
  case Nil
  then show ?case by simp
next
  case (Cons t ts)
  let ?c = "mEntityToComponentIdx em ! e ! t"
  show ?case
  proof (cases "?c = INVALID_COMPONENT_INDEX")
    case True
    with Cons.prems have run: "RemoveEntity_loop ts e em = Some em'" by simp
    from Cons.IH [OF run] True show ?thesis by auto
  next
    case False
    with Cons.prems obtain r' where
      r': "registries_remove (mRegistries em) t ?c = Some r'"
      by (auto simp: RemoveComponentByIndex_def split: option.splits)
    let ?em1 = "em\<lparr>mRegistries := r'\<rparr>"
    let ?em2 = "?em1\<lparr>mEntityToComponentIdx := (mEntityToComponentIdx ?em1)
                 [e := (mEntityToComponentIdx ?em1 ! e)[t := INVALID_COMPONENT_INDEX]]\<rparr>"
    have run: "RemoveEntity_loop ts e ?em2 = Some em'"
      using Cons.prems False r' by (simp add: RemoveComponentByIndex_def)
    note ih = Cons.IH [OF run]
    show ?thesis
    proof (cases "e < length (mEntityToComponentIdx em)")
      case True
      with ih show ?thesis
        by (auto simp: nth_list_update nth_update_beyond)
    next
      case False
      with ih show ?thesis
        by (auto simp: list_update_beyond not_less)
    qed
  qed
qed

lemma em_invD:
  assumes "em_inv em"
  shows "length (mValidIds em) = length (mEntityToComponentIdx em)"
    and "length (mEntities em) = length (mEntityToComponentIdx em)"
    and "\<forall>row \<in> set (mEntityToComponentIdx em). length row = NUM_COMPONENTS"
    and "distinct (mFreeIds em)"
    and "\<forall>x \<in> set (mFreeIds em). x < length (mValidIds em) \<and> \<not> mValidIds em ! x"
    and "\<forall>x < length (mEntityToComponentIdx em). \<not> mValidIds em ! x \<longrightarrow>
           mEntityToComponentIdx em ! x = replicate NUM_COMPONENTS INVALID_COMPONENT_INDEX"
  using assms unfolding em_inv_def by blast+

lemma em_invI:
  assumes "length (mValidIds em) = length (mEntityToComponentIdx em)"
    and "length (mEntities em) = length (mEntityToComponentIdx em)"
    and "\<forall>row \<in> set (mEntityToComponentIdx em). length row = NUM_COMPONENTS"
    and "distinct (mFreeIds em)"
    and "\<forall>x \<in> set (mFreeIds em). x < length (mValidIds em) \<and> \<not> mValidIds em ! x"
    and "\<forall>x < length (mEntityToComponentIdx em). \<not> mValidIds em ! x \<longrightarrow>
           mEntityToComponentIdx em ! x = replicate NUM_COMPONENTS INVALID_COMPONENT_INDEX"
  shows "em_inv em"
  using assms unfolding em_inv_def by blast

lemma RemoveEntity_inv:
  assumes inv: "em_inv em" and rm: "RemoveEntity em e = Some em'"
  shows "em_inv em'"
proof (cases "ValidEntity em e")
  case False
  with rm inv show ?thesis by (simp add: RemoveEntity_def)
next
  case True
  with rm obtain em1 where l: "RemoveEntity_loop [0..<NUM_COMPONENTS] e em = Some em1"
    and em': "em' = em1\<lparr>mEntities := (mEntities em1)
                          [e := (mEntities em1 ! e)\<lparr>ent_name := [], ent_id := 0\<rparr>],
                       mValidIds := (mValidIds em1)[e := False],
                       mFreeIds := mFreeIds em1 @ [e]\<rparr>"
    by (auto simp: RemoveEntity_def split: option.splits)
  note f = RemoveEntity_loop_idx [OF l]
  note len = em_invD(1) [OF inv] and lenE = em_invD(2) [OF inv] and rows = em_invD(3) [OF inv]
    and dist = em_invD(4) [OF inv] and free = em_invD(5) [OF inv] and dead = em_invD(6) [OF inv]
  from True have e: "e < length (mValidIds em)" "mValidIds em ! e" by (simp_all add: ValidEntity_def)
  with len have e': "e < length (mEntityToComponentIdx em)" by simp
  with rows have rowe: "length (mEntityToComponentIdx em ! e) = NUM_COMPONENTS" by simp
  have rowe': "mEntityToComponentIdx em1 ! e = replicate NUM_COMPONENTS INVALID_COMPONENT_INDEX"
  proof (rule nth_equalityI)
    show "length (mEntityToComponentIdx em1 ! e)
        = length (replicate NUM_COMPONENTS INVALID_COMPONENT_INDEX)"
      using f rowe by simp
  next
    fix t assume "t < length (mEntityToComponentIdx em1 ! e)"
    with f rowe have t: "t < NUM_COMPONENTS" by simp
    with f e' rowe show "mEntityToComponentIdx em1 ! e ! t
        = replicate NUM_COMPONENTS INVALID_COMPONENT_INDEX ! t" by simp
  qed
  have rows1: "\<forall>row \<in> set (mEntityToComponentIdx em1). length row = NUM_COMPONENTS"
  proof
    fix row assume "row \<in> set (mEntityToComponentIdx em1)"
    then obtain i where i: "i < length (mEntityToComponentIdx em1)"
      and row: "row = mEntityToComponentIdx em1 ! i" by (auto simp: in_set_conv_nth)
    show "length row = NUM_COMPONENTS"
    proof (cases "i = e")
      case True
      with row rowe' show ?thesis by simp
    next
      case False
      with f row have "row = mEntityToComponentIdx em ! i" by simp
      moreover from i f have "i < length (mEntityToComponentIdx em)" by simp
      ultimately show ?thesis using rows by simp
    qed
  qed
  from free e have notin: "e \<notin> set (mFreeIds em)" by auto
  have free1: "\<forall>x \<in> set (mFreeIds em @ [e]). x < length (mValidIds em)
       \<and> \<not> (mValidIds em)[e := False] ! x"
    using free e by (auto simp: nth_list_update)
  have dead1: "\<forall>x < length (mEntityToComponentIdx em1). \<not> (mValidIds em)[e := False] ! x \<longrightarrow>
           mEntityToComponentIdx em1 ! x = replicate NUM_COMPONENTS INVALID_COMPONENT_INDEX"
  proof (intro allI impI)
    fix x assume x: "x < length (mEntityToComponentIdx em1)"
      and nv: "\<not> (mValidIds em)[e := False] ! x"
    show "mEntityToComponentIdx em1 ! x = replicate NUM_COMPONENTS INVALID_COMPONENT_INDEX"
    proof (cases "x = e")
      case True
      with rowe' show ?thesis by simp
    next
      case False
      with nv have "\<not> mValidIds em ! x" by simp
      moreover from x f have "x < length (mEntityToComponentIdx em)" by simp
      ultimately have "mEntityToComponentIdx em ! x
          = replicate NUM_COMPONENTS INVALID_COMPONENT_INDEX" using dead by simp
      with f False show ?thesis by simp
    qed
  qed
  from f have v1: "mValidIds em1 = mValidIds em" and e1: "mEntities em1 = mEntities em"
    and fr1: "mFreeIds em1 = mFreeIds em"
    and l1: "length (mEntityToComponentIdx em1) = length (mEntityToComponentIdx em)"
    by simp_all
  show ?thesis
  proof (rule em_invI)
    show "length (mValidIds em') = length (mEntityToComponentIdx em')"
      by (simp add: em' v1 l1 len)
    show "length (mEntities em') = length (mEntityToComponentIdx em')"
      by (simp add: em' e1 l1 lenE)
    show "\<forall>row \<in> set (mEntityToComponentIdx em'). length row = NUM_COMPONENTS"
      using rows1 by (simp add: em')
    show "distinct (mFreeIds em')"
      using dist notin by (simp add: em' fr1)
    show "\<forall>x \<in> set (mFreeIds em'). x < length (mValidIds em') \<and> \<not> mValidIds em' ! x"
      using free1 by (simp add: em' fr1 v1)
    show "\<forall>x < length (mEntityToComponentIdx em'). \<not> mValidIds em' ! x \<longrightarrow>
           mEntityToComponentIdx em' ! x = replicate NUM_COMPONENTS INVALID_COMPONENT_INDEX"
      using dead1 by (simp add: em' v1)
  qed
qed

lemma rows_update:
  assumes "\<forall>row \<in> set idx. length row = n" and "e < length idx"
  shows "\<forall>row \<in> set (idx[e := (idx ! e)[t := v]]). length row = n"
proof
  fix row assume "row \<in> set (idx[e := (idx ! e)[t := v]])"
  then have "row = (idx ! e)[t := v] \<or> row \<in> set idx"
    using set_update_subset_insert [of idx e "(idx ! e)[t := v]"] by auto
  moreover from assms have "length (idx ! e) = n" by simp
  ultimately show "length row = n" using assms(1) by auto
qed

lemma AddComponent_inv:
  assumes inv: "em_inv em" and add: "AddComponent T em e v = Some em'"
  shows "em_inv em'"
proof -
  from add have ve: "ValidEntity em e"
    by (cases "ValidEntity em e") (simp_all add: AddComponent_def)
  obtain n reg where st: "cs_store (get_reg T (mRegistries em)) v = (n, reg)"
    by (cases "cs_store (get_reg T (mRegistries em)) v")
  let ?idx = "(mEntityToComponentIdx em)[e := (mEntityToComponentIdx em ! e)[type_id T := n]]"
  from add ve st have
    em': "em' = em\<lparr>mRegistries := set_reg T reg (mRegistries em),
                mEntityToComponentIdx := ?idx\<rparr>"
    by (cases "mEntityToComponentIdx em ! e ! type_id T = INVALID_COMPONENT_INDEX")
       (simp_all add: AddComponent_def)
  from ve have e: "e < length (mValidIds em)" "mValidIds em ! e" by (simp_all add: ValidEntity_def)
  note len = em_invD(1) [OF inv] and lenE = em_invD(2) [OF inv] and rows0 = em_invD(3) [OF inv]
    and dist = em_invD(4) [OF inv] and free = em_invD(5) [OF inv] and dead0 = em_invD(6) [OF inv]
  from e len have e': "e < length (mEntityToComponentIdx em)" by simp
  have rows: "\<forall>row \<in> set ?idx. length row = NUM_COMPONENTS"
    using rows0 e' by (rule rows_update)
  have dead: "\<forall>x < length ?idx. \<not> mValidIds em ! x \<longrightarrow>
           ?idx ! x = replicate NUM_COMPONENTS INVALID_COMPONENT_INDEX"
  proof (intro allI impI)
    fix x assume x: "x < length ?idx" and nv: "\<not> mValidIds em ! x"
    from nv e have ne: "x \<noteq> e" by blast
    from x have "x < length (mEntityToComponentIdx em)" by simp
    with dead0 nv have "mEntityToComponentIdx em ! x
        = replicate NUM_COMPONENTS INVALID_COMPONENT_INDEX" by blast
    moreover from ne have "?idx ! x = mEntityToComponentIdx em ! x" by simp
    ultimately show "?idx ! x = replicate NUM_COMPONENTS INVALID_COMPONENT_INDEX" by simp
  qed
  have fields: "mValidIds em' = mValidIds em" "mEntities em' = mEntities em"
    "mFreeIds em' = mFreeIds em" "mEntityToComponentIdx em' = ?idx"
    by (simp_all add: em')
  show ?thesis
  proof (rule em_invI)
    show "length (mValidIds em') = length (mEntityToComponentIdx em')"
      by (simp add: fields len)
    show "length (mEntities em') = length (mEntityToComponentIdx em')"
      by (simp add: fields lenE)
    show "\<forall>row \<in> set (mEntityToComponentIdx em'). length row = NUM_COMPONENTS"
      unfolding fields by (rule rows)
    show "distinct (mFreeIds em')"
      unfolding fields by (rule dist)
    show "\<forall>x \<in> set (mFreeIds em'). x < length (mValidIds em') \<and> \<not> mValidIds em' ! x"
      unfolding fields by (rule free)
    show "\<forall>x < length (mEntityToComponentIdx em'). \<not> mValidIds em' ! x \<longrightarrow>
           mEntityToComponentIdx em' ! x = replicate NUM_COMPONENTS INVALID_COMPONENT_INDEX"
      unfolding fields by (rule dead)
  qed
qed

end
